theory Spec2Isabelle
  imports Complex_Main
begin

section \<open>Greedy multilabel oversampling: the model of \<open>multilabel_oversampling.py\<close>\<close>

subsection \<open>Python values, exceptions and scores\<close>

text \<open>
  The constructor arguments \<open>number_of_adds\<close> and \<open>number_of_tries\<close> are Python
  objects: an integer, a float (the literal \<open>1e6\<close> of \<open>__init__\<close> is one) or \<open>None\<close>.
\<close>

datatype pyval = PyInt int | PyFloat real | PyNone

datatype exn = TypeError | KeyError | ValueError | IndexError | UnboundLocalError

text \<open>
  The result of \<open>Series.std()\<close> is a float. Its value is kept as a real number (rounding
  is outside the model), and not-a-number is a value of its own.
\<close>

datatype score = NaN | Val real

text \<open>The comparison \<open>a < b\<close> on floats: false as soon as one side is not a number.\<close>

fun score_less :: "score \<Rightarrow> score \<Rightarrow> bool" where
  "score_less (Val a) (Val b) = (a < b)"
| "score_less _ _ = False"

text \<open>Truth value of an object, as \<open>if number_of_adds:\<close> tests it.\<close>

fun truthy :: "pyval \<Rightarrow> bool" where
  "truthy (PyInt n) = (n \<noteq> 0)"
| "truthy (PyFloat x) = (x \<noteq> 0)"
| "truthy PyNone = False"

text \<open>\<open>range(v)\<close>: only an integer is accepted; a negative one gives the empty range.\<close>

fun py_range :: "pyval \<Rightarrow> exn + nat list" where
  "py_range (PyInt n) = Inr [0..<nat n]"
| "py_range (PyFloat x) = Inl TypeError"
| "py_range PyNone = Inl TypeError"

text \<open>\<open>k == v\<close> for an integer \<open>k\<close>: an integer equals a float of the same value.\<close>

fun py_eq_int :: "int \<Rightarrow> pyval \<Rightarrow> bool" where
  "py_eq_int k (PyInt n) = (k = n)"
| "py_eq_int k (PyFloat x) = (real_of_int k = x)"
| "py_eq_int k PyNone = False"

subsection \<open>Data frames\<close>

text \<open>
  A row is its index label and its cells, in column order. A frame is rectangular: every
  row has one cell per column, and the column names are distinct. Cells are integers
  (the label columns hold 0 or 1); \<open>fit\<close> reads no column outside \<open>target_list\<close>.
\<close>

type_synonym row = "int \<times> int list"

record frame =
  columns :: "string list"
  rows :: "row list"

fun index_of :: "'a \<Rightarrow> 'a list \<Rightarrow> nat" where
  "index_of a [] = 0"
| "index_of a (x # xs) = (if x = a then 0 else Suc (index_of a xs))"

text \<open>\<open>frame[names].sum()\<close>: the column sums, or KeyError for a name that is no column.\<close>

definition select_sum :: "frame \<Rightarrow> string list \<Rightarrow> exn + int list" where
  "select_sum d names =
     (if set names \<subseteq> set (columns d)
      then Inr (map (\<lambda>n. sum_list (map (\<lambda>r. snd r ! index_of n (columns d)) (rows d))) names)
      else Inl KeyError)"

text \<open>\<open>Series.std()\<close>: the sample standard deviation (denominator \<open>k - 1\<close>), not a number
  for fewer than two values.\<close>

definition std :: "int list \<Rightarrow> score" where
  "std cs =
     (if length cs < 2 then NaN
      else let m = real_of_int (sum_list cs) / real (length cs)
           in Val (sqrt (sum_list (map (\<lambda>c. (real_of_int c - m)\<^sup>2) cs) / real (length cs - 1))))"

definition score_of :: "frame \<Rightarrow> string list \<Rightarrow> exn + score" where
  "score_of d names = (case select_sum d names of Inl e \<Rightarrow> Inl e | Inr cs \<Rightarrow> Inr (std cs))"

text \<open>
  \<open>df.sample(n = 1)\<close>: one row of the frame, chosen by the random number \<open>r\<close>; on a frame
  without rows it raises ValueError.
\<close>

definition sample :: "frame \<Rightarrow> nat \<Rightarrow> exn + row" where
  "sample d r = (if rows d = [] then Inl ValueError else Inr (rows d ! (r mod length (rows d))))"

text \<open>\<open>pd.concat((frame, random_row))\<close>: a new frame, the row appended with its index label.\<close>

definition concat_row :: "frame \<Rightarrow> row \<Rightarrow> frame" where
  "concat_row d r = d\<lparr>rows := rows d @ [r]\<rparr>"

subsection \<open>The oversampler object\<close>

record oversampler =
  number_of_adds :: pyval
  number_of_tries :: pyval
  tqdm_disable :: bool
  details :: bool
  plot :: bool
  self_target_list :: "string list option"
  self_df :: "frame option"
  self_df_new :: "frame option"
  self_res_std :: "score list option"
  self_res_bad :: "(int \<times> score) list list option"

definition init :: "pyval \<Rightarrow> pyval \<Rightarrow> bool \<Rightarrow> bool \<Rightarrow> bool \<Rightarrow> oversampler" where
  "init adds tries tqdm_off det plt =
     \<lparr>number_of_adds = (if truthy adds then adds else PyFloat 1000000),
      number_of_tries = (if truthy tries then tries else PyFloat 1000000),
      tqdm_disable = tqdm_off, details = det, plot = plt,
      self_target_list = None, self_df = None, self_df_new = None,
      self_res_std = None, self_res_bad = None\<rparr>"

definition reset :: "oversampler \<Rightarrow> oversampler" where
  "reset slf = slf\<lparr>self_target_list := None, self_df := None, self_df_new := None,
                   self_res_std := None, self_res_bad := None\<rparr>"

subsection \<open>The loops of \<open>fit\<close>\<close>

text \<open>What \<open>print\<close> writes: the line of a successful try (with \<open>details\<close>) and the line
  before the outer loop is left.\<close>

datatype message =
    Worked nat nat int score score "nat \<times> nat"
  | NoImprovement pyval nat

text \<open>
  The local variables of \<open>fit\<close> that live across loop steps, the number of rows drawn so
  far (the position in the random stream) and the printed lines. \<open>try_var\<close> is the
  variable \<open>try_\<close>: unbound until the inner loop assigns it, and never reset.
\<close>

record locals =
  df_new :: frame
  res_std :: "score list"
  res_bad :: "(int \<times> score) list list"
  not_working :: "(int \<times> score) list"
  try_var :: "nat option"
  draws :: nat
  printed :: "message list"

datatype ctl = Continue | Break

text \<open>
  A \<open>for\<close> loop over a list: the body answers \<open>Break\<close> or \<open>Continue\<close>, an exception
  leaves the loop. The result says whether the loop was left by \<open>break\<close>.
\<close>

fun for_loop :: "('a \<Rightarrow> 's \<Rightarrow> 'e + ctl \<times> 's) \<Rightarrow> 'a list \<Rightarrow> 's \<Rightarrow> 'e + ctl \<times> 's" where
  "for_loop body [] s = Inr (Continue, s)"
| "for_loop body (x # xs) s =
     (case body x s of
        Inl e \<Rightarrow> Inl e
      | Inr (Break, s') \<Rightarrow> Inr (Break, s')
      | Inr (Continue, s') \<Rightarrow> for_loop body xs s')"

text \<open>One try: lines 78 to 90. \<open>d\<close> is the caller's frame, \<open>targets\<close> is \<open>self.target_list\<close>.\<close>

definition try_body ::
  "oversampler \<Rightarrow> frame \<Rightarrow> string list \<Rightarrow> (nat \<Rightarrow> nat) \<Rightarrow> nat \<Rightarrow> score \<Rightarrow> nat \<Rightarrow> locals
    \<Rightarrow> exn \<times> locals + ctl \<times> locals" where
  "try_body slf d targets rng iter current_std t s =
     (let s1 = s\<lparr>try_var := Some t\<rparr> in
      case sample d (rng (draws s1)) of
        Inl e \<Rightarrow> Inl (e, s1)
      | Inr random_row \<Rightarrow>
          let s2 = s1\<lparr>draws := Suc (draws s1)\<rparr>;
              df_interim = concat_row (df_new s2) random_row
          in case score_of df_interim targets of
               Inl e \<Rightarrow> Inl (e, s2)
             | Inr new_std \<Rightarrow>
                 if score_less new_std current_std
                 then Inr (Break,
                        s2\<lparr>df_new := df_interim,
                           res_std := res_std s2 @ [new_std],
                           printed := printed s2 @
                             (if details slf
                              then [Worked iter t (fst random_row) current_std new_std
                                      (length (rows df_interim), length (columns df_interim))]
                              else [])\<rparr>)
                 else Inr (Continue,
                        s2\<lparr>not_working := not_working s2 @ [(fst random_row, new_std)]\<rparr>))"

text \<open>One iteration: lines 73 to 94.\<close>

definition iter_body ::
  "oversampler \<Rightarrow> frame \<Rightarrow> string list \<Rightarrow> (nat \<Rightarrow> nat) \<Rightarrow> nat \<Rightarrow> locals
    \<Rightarrow> exn \<times> locals + ctl \<times> locals" where
  "iter_body slf d targets rng iter s =
     (case score_of (df_new s) targets of
        Inl e \<Rightarrow> Inl (e, s)
      | Inr current_std \<Rightarrow>
          let s1 = s\<lparr>not_working := []\<rparr> in
          case py_range (number_of_tries slf) of
            Inl e \<Rightarrow> Inl (e, s1)
          | Inr ts \<Rightarrow>
              (case for_loop (try_body slf d targets rng iter current_std) ts s1 of
                 Inl e \<Rightarrow> Inl e
               | Inr (c, s2) \<Rightarrow>
                   (case try_var s2 of
                      None \<Rightarrow> Inl (UnboundLocalError, s2)
                    | Some t \<Rightarrow>
                        if py_eq_int (int t + 1) (number_of_tries slf)
                        then Inr (Break,
                               s2\<lparr>printed := printed s2 @
                                     [NoImprovement (number_of_tries slf) iter]\<rparr>)
                        else Inr (Continue,
                               s2\<lparr>res_bad := res_bad s2 @ [not_working s2]\<rparr>))))"

text \<open>
  \<open>plot_all_tries\<close>, as far as it can fail before drawing: \<open>res_bad[0]\<close> on an empty list
  raises IndexError, \<open>max\<close> of an empty list raises ValueError. The drawing is not modelled.
\<close>

definition plot_all_tries :: "score list \<Rightarrow> (int \<times> score) list list \<Rightarrow> exn + unit" where
  "plot_all_tries rs rb =
     (case rb of
        [] \<Rightarrow> Inl IndexError
      | b # _ \<Rightarrow> (if map snd b = [] then Inl ValueError else Inr ()))"

text \<open>What \<open>fit\<close> returns: the frame alone, or the frame with the plotting module.\<close>

datatype retval = Frame frame | FrameAndPlot frame

record run =
  outcome :: "exn + retval"
  obj :: oversampler
  vars :: locals

definition init_locals :: "frame \<Rightarrow> locals" where
  "init_locals d =
     \<lparr>df_new = d, res_std = [], res_bad = [], not_working = [], try_var = None,
      draws = 0, printed = []\<rparr>"

definition fit :: "oversampler \<Rightarrow> frame \<Rightarrow> string list \<Rightarrow> (nat \<Rightarrow> nat) \<Rightarrow> run" where
  "fit slf0 d targets rng =
     (let slf = (reset slf0)\<lparr>self_target_list := Some targets, self_df := Some d\<rparr>;
          s0 = init_locals d
      in case py_range (number_of_adds slf) of
           Inl e \<Rightarrow> \<lparr>outcome = Inl e, obj = slf, vars = s0\<rparr>
         | Inr iters \<Rightarrow>
             (case for_loop (iter_body slf d targets rng) iters s0 of
                Inl (e, s) \<Rightarrow> \<lparr>outcome = Inl e, obj = slf, vars = s\<rparr>
              | Inr (c, s) \<Rightarrow>
                  let slf' = slf\<lparr>self_df_new := Some (df_new s),
                                 self_res_std := Some (res_std s),
                                 self_res_bad := Some (res_bad s)\<rparr>
                  in if 0 < length (res_std s) \<and> plot slf'
                     then (case plot_all_tries (res_std s) (res_bad s) of
                             Inl e \<Rightarrow> \<lparr>outcome = Inl e, obj = slf', vars = s\<rparr>
                           | Inr u \<Rightarrow> \<lparr>outcome = Inr (FrameAndPlot (df_new s)), obj = slf', vars = s\<rparr>)
                     else \<lparr>outcome = Inr (Frame (df_new s)), obj = slf', vars = s\<rparr>))"

subsection \<open>Example frames and random streams\<close>

definition ex_frame :: frame where
  "ex_frame = \<lparr>columns = [''y1'', ''y2''],
               rows = [(0, [1, 0]), (1, [1, 0]), (2, [1, 0]), (3, [0, 1])]\<rparr>"

definition ex_rng :: "nat \<Rightarrow> nat" where
  "ex_rng k = (if k = 0 then 0 else 3)"

subsection \<open>The size of the working frame, as an invariant\<close>

text \<open>The accepted rows are counted by \<open>res_std\<close>: the code appends one score per
  accepted row, in the same branch.\<close>

definition size_inv :: "frame \<Rightarrow> locals \<Rightarrow> bool" where
  "size_inv d s \<longleftrightarrow> length (rows (df_new s)) = length (rows d) + length (res_std s)"

subsection \<open>The same loops with the frames as objects in a store\<close>

text \<open>
  Whether \<open>fit\<close> changes the caller's frame, and whether it returns that very object, is
  a matter of object identity. Here a frame variable holds an address, the position of
  the object in the store. \<open>copy.deepcopy\<close>, \<open>df.sample\<close> and \<open>pd.concat\<close> each build a
  new object, and \<open>df_new = df_interim\<close> rebinds the variable. An address handed to
  \<open>fit\<close> is the address of an object of the store.
\<close>

type_synonym store = "frame list"

definition alloc :: "store \<Rightarrow> frame \<Rightarrow> nat \<times> store" where
  "alloc h f = (length h, h @ [f])"

definition deepcopy :: "store \<Rightarrow> nat \<Rightarrow> nat \<times> store" where
  "deepcopy h a = alloc h (h ! a)"

text \<open>\<open>frame.sample(n = 1)\<close> as an object: a new frame of one row.\<close>

definition sample_obj :: "store \<Rightarrow> nat \<Rightarrow> nat \<Rightarrow> exn + nat \<times> store" where
  "sample_obj h a r =
     (case sample (h ! a) r of
        Inl e \<Rightarrow> Inl e
      | Inr random_row \<Rightarrow> Inr (alloc h ((h ! a)\<lparr>rows := [random_row]\<rparr>)))"

text \<open>\<open>pd.concat((x, y))\<close> as an object: a new frame, the rows of \<open>x\<close> and then those of \<open>y\<close>.\<close>

definition concat_obj :: "store \<Rightarrow> nat \<Rightarrow> nat \<Rightarrow> nat \<times> store" where
  "concat_obj h x y = alloc h ((h ! x)\<lparr>rows := rows (h ! x) @ rows (h ! y)\<rparr>)"

record heap_locals =
  store :: store
  ref_df_new :: nat
  h_res_std :: "score list"
  h_res_bad :: "(int \<times> score) list list"
  h_not_working :: "(int \<times> score) list"
  h_try_var :: "nat option"
  h_draws :: nat
  h_printed :: "message list"

definition st_try_body ::
  "oversampler \<Rightarrow> nat \<Rightarrow> string list \<Rightarrow> (nat \<Rightarrow> nat) \<Rightarrow> nat \<Rightarrow> score \<Rightarrow> nat \<Rightarrow> heap_locals
    \<Rightarrow> exn \<times> heap_locals + ctl \<times> heap_locals" where
  "st_try_body slf a targets rng iter current_std t st =
     (let st1 = st\<lparr>h_try_var := Some t\<rparr> in
      case sample_obj (store st1) a (rng (h_draws st1)) of
        Inl e \<Rightarrow> Inl (e, st1)
      | Inr (random_row, h1) \<Rightarrow>
          let (df_interim, h2) = concat_obj h1 (ref_df_new st1) random_row;
              st2 = st1\<lparr>h_draws := Suc (h_draws st1), store := h2\<rparr>
          in case score_of (h2 ! df_interim) targets of
               Inl e \<Rightarrow> Inl (e, st2)
             | Inr new_std \<Rightarrow>
                 if score_less new_std current_std
                 then Inr (Break,
                        st2\<lparr>ref_df_new := df_interim,
                            h_res_std := h_res_std st2 @ [new_std],
                            h_printed := h_printed st2 @
                              (if details slf
                               then [Worked iter t (fst (hd (rows (h2 ! random_row))))
                                       current_std new_std
                                       (length (rows (h2 ! df_interim)),
                                        length (columns (h2 ! df_interim)))]
                               else [])\<rparr>)
                 else Inr (Continue,
                        st2\<lparr>h_not_working := h_not_working st2
                              @ [(fst (hd (rows (h2 ! random_row))), new_std)]\<rparr>))"

definition st_iter_body ::
  "oversampler \<Rightarrow> nat \<Rightarrow> string list \<Rightarrow> (nat \<Rightarrow> nat) \<Rightarrow> nat \<Rightarrow> heap_locals
    \<Rightarrow> exn \<times> heap_locals + ctl \<times> heap_locals" where
  "st_iter_body slf a targets rng iter st =
     (case score_of (store st ! ref_df_new st) targets of
        Inl e \<Rightarrow> Inl (e, st)
      | Inr current_std \<Rightarrow>
          let st1 = st\<lparr>h_not_working := []\<rparr> in
          case py_range (number_of_tries slf) of
            Inl e \<Rightarrow> Inl (e, st1)
          | Inr ts \<Rightarrow>
              (case for_loop (st_try_body slf a targets rng iter current_std) ts st1 of
                 Inl e \<Rightarrow> Inl e
               | Inr (c, st2) \<Rightarrow>
                   (case h_try_var st2 of
                      None \<Rightarrow> Inl (UnboundLocalError, st2)
                    | Some t \<Rightarrow>
                        if py_eq_int (int t + 1) (number_of_tries slf)
                        then Inr (Break,
                               st2\<lparr>h_printed := h_printed st2 @
                                     [NoImprovement (number_of_tries slf) iter]\<rparr>)
                        else Inr (Continue,
                               st2\<lparr>h_res_bad := h_res_bad st2 @ [h_not_working st2]\<rparr>))))"

text \<open>What \<open>fit\<close> returns, as addresses; \<open>self.df\<close> and \<open>self.df_new\<close> hold addresses too.\<close>

datatype ref_retval = RefFrame nat | RefFrameAndPlot nat

record heap_run =
  h_outcome :: "exn + ref_retval"
  h_self_df :: nat
  h_self_df_new :: "nat option"
  h_vars :: heap_locals

definition st_fit :: "oversampler \<Rightarrow> store \<Rightarrow> nat \<Rightarrow> string list \<Rightarrow> (nat \<Rightarrow> nat) \<Rightarrow> heap_run" where
  "st_fit slf h a targets rng =
     (let (self_df_ref, h1) = deepcopy h a;
          (new_ref, h2) = deepcopy h1 a;
          st0 = \<lparr>store = h2, ref_df_new = new_ref, h_res_std = [], h_res_bad = [],
                 h_not_working = [], h_try_var = None, h_draws = 0, h_printed = []\<rparr>
      in case py_range (number_of_adds slf) of
           Inl e \<Rightarrow> \<lparr>h_outcome = Inl e, h_self_df = self_df_ref, h_self_df_new = None,
                      h_vars = st0\<rparr>
         | Inr iters \<Rightarrow>
             (case for_loop (st_iter_body slf a targets rng) iters st0 of
                Inl (e, st) \<Rightarrow> \<lparr>h_outcome = Inl e, h_self_df = self_df_ref,
                                 h_self_df_new = None, h_vars = st\<rparr>
              | Inr (c, st) \<Rightarrow>
                  if 0 < length (h_res_std st) \<and> plot slf
                  then (case plot_all_tries (h_res_std st) (h_res_bad st) of
                          Inl e \<Rightarrow> \<lparr>h_outcome = Inl e, h_self_df = self_df_ref,
                                     h_self_df_new = Some (ref_df_new st), h_vars = st\<rparr>
                        | Inr u \<Rightarrow> \<lparr>h_outcome = Inr (RefFrameAndPlot (ref_df_new st)),
                                     h_self_df = self_df_ref,
                                     h_self_df_new = Some (ref_df_new st), h_vars = st\<rparr>)
                  else \<lparr>h_outcome = Inr (RefFrame (ref_df_new st)), h_self_df = self_df_ref,
                        h_self_df_new = Some (ref_df_new st), h_vars = st\<rparr>))"

text \<open>
  The objects of the store \<open>h\<close> the call started with are as they were, and the working
  frame is a later object.
\<close>

definition store_inv :: "store \<Rightarrow> heap_locals \<Rightarrow> bool" where
  "store_inv h st \<longleftrightarrow>
     take (length h) (store st) = h
     \<and> length h \<le> ref_df_new st \<and> ref_df_new st < length (store st)"

text \<open>The working frame is the caller's frame followed by rows of the caller's frame.\<close>

definition rows_inv :: "frame \<Rightarrow> locals \<Rightarrow> bool" where
  "rows_inv d s \<longleftrightarrow>
     columns (df_new s) = columns d
     \<and> take (length (rows d)) (rows (df_new s)) = rows d
     \<and> set (drop (length (rows d)) (rows (df_new s))) \<subseteq> set (rows d)"

text \<open>The value model is what the store holds at the address of the working frame.\<close>

definition deref :: "heap_locals \<Rightarrow> locals" where
  "deref st =
     \<lparr>df_new = store st ! ref_df_new st, res_std = h_res_std st, res_bad = h_res_bad st,
      not_working = h_not_working st, try_var = h_try_var st, draws = h_draws st,
      printed = h_printed st\<rparr>"

text \<open>The result of a loop or of a loop body, with its state seen through \<open>f\<close>.\<close>

fun map_state :: "('s \<Rightarrow> 't) \<Rightarrow> 'e \<times> 's + 'c \<times> 's \<Rightarrow> 'e \<times> 't + 'c \<times> 't" where
  "map_state f (Inl (e, s)) = Inl (e, f s)"
| "map_state f (Inr (c, s)) = Inr (c, f s)"

text \<open>
  The accepted scores decrease strictly, and none of them is below the score of the
  working frame.
\<close>

definition trace_inv :: "string list \<Rightarrow> locals \<Rightarrow> bool" where
  "trace_inv targets s \<longleftrightarrow>
     sorted_wrt (\<lambda>a b. score_less b a) (res_std s)
     \<and> (\<forall>sc. score_of (df_new s) targets = Inr sc
          \<longrightarrow> (\<forall>y \<in> set (res_std s). y = sc \<or> score_less sc y))"

section \<open>Properties of the loops\<close>

subsection \<open>The loop combinator\<close>

lemma for_loop_upt:
  "for_loop body [i..<j] s =
     (if i < j
      then (case body i s of
              Inl e \<Rightarrow> Inl e
            | Inr (Break, s') \<Rightarrow> Inr (Break, s')
            | Inr (Continue, s') \<Rightarrow> for_loop body [Suc i..<j] s')
      else Inr (Continue, s))"
  by (simp add: upt_rec[of i j])

lemma upt_split: "i < k \<Longrightarrow> [0..<k] = [0..<i] @ i # [Suc i..<k]"
  using upt_add_eq_append[of 0 i "k - i"] upt_conv_Cons[of i k] by simp

lemma for_loop_append_Continue:
  "for_loop body xs s = Inr (Continue, s') \<Longrightarrow> for_loop body (xs @ ys) s = for_loop body ys s'"
  by (induction xs arbitrary: s) (auto split: sum.splits ctl.splits)

lemma for_loop_append_Break:
  "for_loop body xs s = Inr (Break, s') \<Longrightarrow> for_loop body (xs @ ys) s = Inr (Break, s')"
  by (induction xs arbitrary: s) (auto split: sum.splits ctl.splits)

lemma for_loop_append_Inl:
  "for_loop body xs s = Inl e \<Longrightarrow> for_loop body (xs @ ys) s = Inl e"
  by (induction xs arbitrary: s) (auto split: sum.splits ctl.splits)

lemma for_loop_inv:
  assumes step: "\<And>x s c s'. P s \<Longrightarrow> body x s = Inr (c, s') \<Longrightarrow> P s'"
    and "P s" and "for_loop body xs s = Inr (c, s')"
  shows "P s'"
  using assms(2,3)
proof (induction xs arbitrary: s)
  case Nil
  then show ?case by simp
next
  case (Cons x xs)
  show ?case
  proof (cases "body x s")
    case (Inl e)
    with Cons.prems show ?thesis by simp
  next
    case (Inr p)
    obtain c1 s1 where p: "p = (c1, s1)" by (cases p)
    have P1: "P s1" using step[OF Cons.prems(1)] Inr p by simp
    show ?thesis
    proof (cases c1)
      case Continue
      with Cons.prems Inr p have "for_loop body xs s1 = Inr (c, s')" by simp
      from Cons.IH[OF P1 this] show ?thesis .
    next
      case Break
      with Cons.prems Inr p have "s' = s1" by simp
      with P1 show ?thesis by simp
    qed
  qed
qed

lemma for_loop_inv_exn:
  assumes step: "\<And>x s c s'. P s \<Longrightarrow> body x s = Inr (c, s') \<Longrightarrow> P s'"
    and fail: "\<And>x s e s'. P s \<Longrightarrow> body x s = Inl (e, s') \<Longrightarrow> P s'"
    and "P s" and "for_loop body xs s = Inl (e, s')"
  shows "P s'"
  using assms(3,4)
proof (induction xs arbitrary: s)
  case Nil
  then show ?case by simp
next
  case (Cons x xs)
  show ?case
  proof (cases "body x s")
    case (Inl p)
    with Cons.prems have "body x s = Inl (e, s')" by simp
    from fail[OF Cons.prems(1) this] show ?thesis .
  next
    case (Inr p)
    obtain c1 s1 where p: "p = (c1, s1)" by (cases p)
    have P1: "P s1" using step[OF Cons.prems(1)] Inr p by simp
    show ?thesis
    proof (cases c1)
      case Continue
      with Cons.prems Inr p have "for_loop body xs s1 = Inl (e, s')" by simp
      from Cons.IH[OF P1 this] show ?thesis .
    next
      case Break
      with Cons.prems Inr p show ?thesis by simp
    qed
  qed
qed

subsection \<open>One try\<close>

lemma try_body_Continue:
  assumes "try_body slf d targets rng iter cur t s = Inr (Continue, s')"
  shows "\<exists>random_row new_std.
      sample d (rng (draws s)) = Inr random_row
    \<and> score_of (concat_row (df_new s) random_row) targets = Inr new_std
    \<and> \<not> score_less new_std cur
    \<and> s' = s\<lparr>try_var := Some t, draws := Suc (draws s),
             not_working := not_working s @ [(fst random_row, new_std)]\<rparr>"
  using assms unfolding try_body_def Let_def
  by (auto split: sum.splits if_splits)

lemma try_body_Break:
  assumes "try_body slf d targets rng iter cur t s = Inr (Break, s')"
  shows "\<exists>random_row new_std.
      sample d (rng (draws s)) = Inr random_row
    \<and> score_of (concat_row (df_new s) random_row) targets = Inr new_std
    \<and> score_less new_std cur
    \<and> s' = s\<lparr>try_var := Some t, draws := Suc (draws s),
             df_new := concat_row (df_new s) random_row,
             res_std := res_std s @ [new_std],
             printed := printed s @
               (if details slf
                then [Worked iter t (fst random_row) cur new_std
                        (length (rows (concat_row (df_new s) random_row)),
                         length (columns (concat_row (df_new s) random_row)))]
                else [])\<rparr>"
  using assms unfolding try_body_def Let_def
  by (auto split: sum.splits if_splits)

lemma try_body_Inl:
  assumes "try_body slf d targets rng iter cur t s = Inl (e, s')"
  shows "df_new s' = df_new s \<and> res_std s' = res_std s \<and> res_bad s' = res_bad s
    \<and> not_working s' = not_working s \<and> printed s' = printed s \<and> try_var s' = Some t
    \<and> draws s' \<le> Suc (draws s)"
  using assms unfolding try_body_def Let_def
  by (auto split: sum.splits if_splits)


text \<open>While the tries are rejected, only the counters and \<open>not_working\<close> move.\<close>

lemma try_loop_Continue:
  assumes "for_loop (try_body slf d targets rng iter cur) ts s = Inr (Continue, s')"
  shows "df_new s' = df_new s \<and> res_std s' = res_std s \<and> res_bad s' = res_bad s
    \<and> printed s' = printed s \<and> draws s' = draws s + length ts
    \<and> try_var s' = (if ts = [] then try_var s else Some (last ts))
    \<and> length (not_working s') = length (not_working s) + length ts"
  using assms
proof (induction ts arbitrary: s)
  case Nil
  then show ?case by simp
next
  case (Cons t ts)
  from Cons.prems obtain s1 where
    b: "try_body slf d targets rng iter cur t s = Inr (Continue, s1)"
    and r: "for_loop (try_body slf d targets rng iter cur) ts s1 = Inr (Continue, s')"
    by (auto split: sum.splits ctl.splits)
  from b have s1: "df_new s1 = df_new s \<and> res_std s1 = res_std s \<and> res_bad s1 = res_bad s
    \<and> printed s1 = printed s \<and> draws s1 = Suc (draws s) \<and> try_var s1 = Some t
    \<and> length (not_working s1) = Suc (length (not_working s))"
    using try_body_Continue[OF b] by auto
  from Cons.IH[OF r] s1 show ?case by simp
qed

text \<open>A \<open>break\<close> of the try loop is one accepted row, after the tries before it.\<close>

lemma try_loop_Break:
  assumes "for_loop (try_body slf d targets rng iter cur) ts s = Inr (Break, s')"
  shows "\<exists>pre t post random_row new_std.
      ts = pre @ t # post
    \<and> sample d (rng (draws s + length pre)) = Inr random_row
    \<and> score_of (concat_row (df_new s) random_row) targets = Inr new_std
    \<and> score_less new_std cur
    \<and> df_new s' = concat_row (df_new s) random_row
    \<and> res_std s' = res_std s @ [new_std]
    \<and> res_bad s' = res_bad s
    \<and> try_var s' = Some t
    \<and> draws s' = Suc (draws s + length pre)
    \<and> length (not_working s') = length (not_working s) + length pre"
  using assms
proof (induction ts arbitrary: s)
  case Nil
  then show ?case by simp
next
  case (Cons t ts)
  from Cons.prems obtain c1 s1 where
    b: "try_body slf d targets rng iter cur t s = Inr (c1, s1)"
    by (auto split: sum.splits)
  show ?case
  proof (cases c1)
    case Break
    with Cons.prems b have eq: "s' = s1" by simp
    from try_body_Break[of slf d targets rng iter cur t s s1] b Break
    obtain random_row new_std where
      "sample d (rng (draws s)) = Inr random_row"
      "score_of (concat_row (df_new s) random_row) targets = Inr new_std"
      "score_less new_std cur"
      "s1 = s\<lparr>try_var := Some t, draws := Suc (draws s),
              df_new := concat_row (df_new s) random_row,
              res_std := res_std s @ [new_std],
              printed := printed s @
                (if details slf
                 then [Worked iter t (fst random_row) cur new_std
                         (length (rows (concat_row (df_new s) random_row)),
                          length (columns (concat_row (df_new s) random_row)))]
                 else [])\<rparr>"
      by blast
    with eq have "t # ts = [] @ t # ts
      \<and> sample d (rng (draws s + length ([]::nat list))) = Inr random_row
      \<and> score_of (concat_row (df_new s) random_row) targets = Inr new_std
      \<and> score_less new_std cur
      \<and> df_new s' = concat_row (df_new s) random_row
      \<and> res_std s' = res_std s @ [new_std]
      \<and> res_bad s' = res_bad s
      \<and> try_var s' = Some t
      \<and> draws s' = Suc (draws s + length ([]::nat list))
      \<and> length (not_working s') = length (not_working s) + length ([]::nat list)"
      by simp
    then show ?thesis by blast
  next
    case Continue
    with Cons.prems b have r: "for_loop (try_body slf d targets rng iter cur) ts s1 = Inr (Break, s')"
      by simp
    from b Continue have s1: "df_new s1 = df_new s \<and> res_std s1 = res_std s \<and> res_bad s1 = res_bad s
      \<and> draws s1 = Suc (draws s) \<and> length (not_working s1) = Suc (length (not_working s))"
      using try_body_Continue[of slf d targets rng iter cur t s s1] by auto
    from Cons.IH[OF r] obtain pre t' post random_row new_std where
      h: "ts = pre @ t' # post"
        "sample d (rng (draws s1 + length pre)) = Inr random_row"
        "score_of (concat_row (df_new s1) random_row) targets = Inr new_std"
        "score_less new_std cur"
        "df_new s' = concat_row (df_new s1) random_row"
        "res_std s' = res_std s1 @ [new_std]"
        "res_bad s' = res_bad s1"
        "try_var s' = Some t'"
        "draws s' = Suc (draws s1 + length pre)"
        "length (not_working s') = length (not_working s1) + length pre"
      by blast
    from h s1 have "t # ts = (t # pre) @ t' # post
      \<and> sample d (rng (draws s + length (t # pre))) = Inr random_row
      \<and> score_of (concat_row (df_new s) random_row) targets = Inr new_std
      \<and> score_less new_std cur
      \<and> df_new s' = concat_row (df_new s) random_row
      \<and> res_std s' = res_std s @ [new_std]
      \<and> res_bad s' = res_bad s
      \<and> try_var s' = Some t'
      \<and> draws s' = Suc (draws s + length (t # pre))
      \<and> length (not_working s') = length (not_working s) + length (t # pre)"
      by simp
    then show ?thesis by blast
  qed
qed

text \<open>An exception in the try loop comes after rejected tries only.\<close>

lemma try_loop_Inl:
  assumes "for_loop (try_body slf d targets rng iter cur) ts s = Inl (e, s')"
  shows "df_new s' = df_new s \<and> res_std s' = res_std s \<and> res_bad s' = res_bad s
    \<and> printed s' = printed s"
  using assms
proof (induction ts arbitrary: s)
  case Nil
  then show ?case by simp
next
  case (Cons t ts)
  show ?case
  proof (cases "try_body slf d targets rng iter cur t s")
    case (Inl p)
    with Cons.prems have "try_body slf d targets rng iter cur t s = Inl (e, s')" by simp
    from try_body_Inl[OF this] show ?thesis by simp
  next
    case (Inr p)
    obtain c1 s1 where p: "p = (c1, s1)" by (cases p)
    with Cons.prems Inr have c1: "c1 = Continue"
      and r: "for_loop (try_body slf d targets rng iter cur) ts s1 = Inl (e, s')"
      by (cases c1; simp)+
    from Inr p c1 have "try_body slf d targets rng iter cur t s = Inr (Continue, s1)" by simp
    then have "df_new s1 = df_new s \<and> res_std s1 = res_std s \<and> res_bad s1 = res_bad s
      \<and> printed s1 = printed s"
      using try_body_Continue[of slf d targets rng iter cur t s s1] by auto
    with Cons.IH[OF r] show ?thesis by simp
  qed
qed

subsection \<open>One iteration\<close>

lemma iter_body_Inr:
  assumes "iter_body slf d targets rng iter s = Inr (c, s')"
  shows "\<exists>cur ts c2 s2 t.
      score_of (df_new s) targets = Inr cur
    \<and> py_range (number_of_tries slf) = Inr ts
    \<and> for_loop (try_body slf d targets rng iter cur) ts (s\<lparr>not_working := []\<rparr>) = Inr (c2, s2)
    \<and> try_var s2 = Some t
    \<and> (if py_eq_int (int t + 1) (number_of_tries slf)
       then c = Break
          \<and> s' = s2\<lparr>printed := printed s2 @ [NoImprovement (number_of_tries slf) iter]\<rparr>
       else c = Continue \<and> s' = s2\<lparr>res_bad := res_bad s2 @ [not_working s2]\<rparr>)"
  using assms unfolding iter_body_def Let_def
  by (auto split: sum.splits option.splits if_splits)

lemma iter_body_Inl:
  assumes "iter_body slf d targets rng iter s = Inl (e, s')"
  shows "df_new s' = df_new s \<and> res_std s' = res_std s \<and> res_bad s' = res_bad s
    \<and> printed s' = printed s"
proof (cases "score_of (df_new s) targets")
  case (Inl a)
  with assms show ?thesis by (simp add: iter_body_def)
next
  case cur: (Inr cur)
  show ?thesis
  proof (cases "py_range (number_of_tries slf)")
    case (Inl a)
    with assms cur show ?thesis by (auto simp: iter_body_def Let_def)
  next
    case ts: (Inr ts)
    show ?thesis
    proof (cases "for_loop (try_body slf d targets rng iter cur) ts (s\<lparr>not_working := []\<rparr>)")
      case (Inl p)
      with assms cur ts have "for_loop (try_body slf d targets rng iter cur) ts (s\<lparr>not_working := []\<rparr>)
        = Inl (e, s')"
        by (simp add: iter_body_def Let_def)
      from try_loop_Inl[OF this] show ?thesis by simp
    next
      case (Inr p)
      obtain c2 s2 where p: "p = (c2, s2)" by (cases p)
      with assms cur ts Inr have none: "try_var s2 = None" and eq: "s' = s2"
        by (auto simp: iter_body_def Let_def split: option.splits if_splits)
      show ?thesis
      proof (cases c2)
        case Continue
        with Inr p try_loop_Continue[of slf d targets rng iter cur ts "s\<lparr>not_working := []\<rparr>" s2] eq
        show ?thesis by simp
      next
        case Break
        with Inr p try_loop_Break[of slf d targets rng iter cur ts "s\<lparr>not_working := []\<rparr>" s2] none
        show ?thesis by auto
      qed
    qed
  qed
qed


text \<open>An iteration leaves the working frame as it is or appends one row of the caller's
  frame, whose score is strictly below the score at the start of the iteration.\<close>

lemma sample_in_rows: "sample d r = Inr random_row \<Longrightarrow> random_row \<in> set (rows d)"
  by (auto simp: sample_def split: if_splits)

lemma iter_body_effect:
  assumes "iter_body slf d targets rng iter s = Inr (c, s')"
  shows "\<exists>cur. score_of (df_new s) targets = Inr cur
    \<and> ((df_new s' = df_new s \<and> res_std s' = res_std s)
       \<or> (\<exists>random_row new_std. random_row \<in> set (rows d)
            \<and> score_of (concat_row (df_new s) random_row) targets = Inr new_std
            \<and> score_less new_std cur
            \<and> df_new s' = concat_row (df_new s) random_row
            \<and> res_std s' = res_std s @ [new_std]))"
proof -
  from iter_body_Inr[OF assms] obtain cur ts c2 s2 t where
    cur: "score_of (df_new s) targets = Inr cur"
    and loop: "for_loop (try_body slf d targets rng iter cur) ts (s\<lparr>not_working := []\<rparr>) = Inr (c2, s2)"
    and s': "df_new s' = df_new s2 \<and> res_std s' = res_std s2"
    by (auto split: if_splits)
  show ?thesis
  proof (cases c2)
    case Continue
    with loop try_loop_Continue[of slf d targets rng iter cur ts "s\<lparr>not_working := []\<rparr>" s2] s' cur
    show ?thesis by simp
  next
    case Break
    with loop have "for_loop (try_body slf d targets rng iter cur) ts (s\<lparr>not_working := []\<rparr>)
      = Inr (Break, s2)" by simp
    from try_loop_Break[OF this] obtain pre :: "nat list" and random_row new_std where
      h: "sample d (rng (draws (s\<lparr>not_working := []\<rparr>) + length pre)) = Inr random_row"
         "score_of (concat_row (df_new (s\<lparr>not_working := []\<rparr>)) random_row) targets = Inr new_std"
         "score_less new_std cur"
         "df_new s2 = concat_row (df_new (s\<lparr>not_working := []\<rparr>)) random_row"
         "res_std s2 = res_std (s\<lparr>not_working := []\<rparr>) @ [new_std]"
      by blast
    have "random_row \<in> set (rows d)" by (rule sample_in_rows[OF h(1)])
    moreover have "score_of (concat_row (df_new s) random_row) targets = Inr new_std"
      using h(2) by simp
    moreover have "df_new s' = concat_row (df_new s) random_row" using h(4) s' by simp
    moreover have "res_std s' = res_std s @ [new_std]" using h(5) s' by simp
    ultimately show ?thesis using cur h(3) by blast
  qed
qed

subsection \<open>The size of the working frame\<close>

lemma size_inv_init: "size_inv d (init_locals d)"
  by (simp add: size_inv_def init_locals_def)

lemma size_inv_try_body:
  assumes "size_inv d s" and "try_body slf d targets rng iter cur t s = Inr (c, s')"
  shows "size_inv d s'"
proof (cases c)
  case Continue
  with assms try_body_Continue[of slf d targets rng iter cur t s s'] show ?thesis
    by (auto simp: size_inv_def)
next
  case Break
  with assms try_body_Break[of slf d targets rng iter cur t s s'] show ?thesis
    by (auto simp: size_inv_def concat_row_def)
qed

lemma size_inv_iter_body:
  assumes "size_inv d s" and "iter_body slf d targets rng iter s = Inr (c, s')"
  shows "size_inv d s'"
  using assms(1) iter_body_effect[OF assms(2)]
  by (auto simp: size_inv_def concat_row_def)

lemma size_inv_iter_body_Inl:
  assumes "size_inv d s" and "iter_body slf d targets rng iter s = Inl (e, s')"
  shows "size_inv d s'"
  using assms(1) iter_body_Inl[OF assms(2)] by (simp add: size_inv_def)

lemma size_inv_iter_loop:
  assumes "size_inv d s"
  shows "(for_loop (iter_body slf d targets rng) iters s = Inr (c, s') \<longrightarrow> size_inv d s')
    \<and> (for_loop (iter_body slf d targets rng) iters s = Inl (e, s') \<longrightarrow> size_inv d s')"
proof (intro conjI impI)
  assume "for_loop (iter_body slf d targets rng) iters s = Inr (c, s')"
  from for_loop_inv[where P = "size_inv d", OF _ assms this] size_inv_iter_body
  show "size_inv d s'" by blast
next
  assume "for_loop (iter_body slf d targets rng) iters s = Inl (e, s')"
  from for_loop_inv_exn[where P = "size_inv d", OF _ _ assms this]
    size_inv_iter_body size_inv_iter_body_Inl
  show "size_inv d s'" by blast
qed

text \<open>Each iteration accepts one row at most.\<close>

lemma iter_loop_accept_bound:
  "(for_loop (iter_body slf d targets rng) iters s = Inr (c, s')
      \<longrightarrow> length (res_std s') \<le> length (res_std s) + length iters)
   \<and> (for_loop (iter_body slf d targets rng) iters s = Inl (e, s')
      \<longrightarrow> length (res_std s') \<le> length (res_std s) + length iters)"
proof (induction iters arbitrary: s)
  case Nil
  then show ?case by simp
next
  case (Cons i iters)
  show ?case
  proof (cases "iter_body slf d targets rng i s")
    case (Inl p)
    then show ?thesis using iter_body_Inl[of slf d targets rng i s e s'] by auto
  next
    case (Inr p)
    obtain c1 s1 where p: "p = (c1, s1)" by (cases p)
    from iter_body_effect[of slf d targets rng i s c1 s1] Inr p
    have le: "length (res_std s1) \<le> Suc (length (res_std s))" by auto
    show ?thesis
    proof (cases c1)
      case Break
      with Inr p le show ?thesis by auto
    next
      case Continue
      with Inr p have "for_loop (iter_body slf d targets rng) (i # iters) s
        = for_loop (iter_body slf d targets rng) iters s1" by simp
      with Cons.IH[of s1] le show ?thesis by auto
    qed
  qed
qed

subsection \<open>\<open>fit\<close> through its loop\<close>

text \<open>The loops read \<open>number_of_tries\<close> and \<open>details\<close> only, which \<open>reset\<close> keeps.\<close>

lemma try_body_cong:
  "details a = details b \<Longrightarrow> try_body a d targets rng = try_body b d targets rng"
  by (auto simp: try_body_def Let_def fun_eq_iff split: sum.splits)

lemma iter_body_cong:
  assumes "number_of_tries a = number_of_tries b" and "details a = details b"
  shows "iter_body a d targets rng = iter_body b d targets rng"
proof -
  have eq: "\<And>iter cur. try_body a d targets rng iter cur = try_body b d targets rng iter cur"
    using try_body_cong[OF assms(2), of d targets rng] by simp
  show ?thesis
    by (intro ext) (unfold iter_body_def assms(1) eq, rule refl)
qed

lemma reset_config:
  "number_of_adds (reset slf) = number_of_adds slf"
  "number_of_tries (reset slf) = number_of_tries slf"
  "details (reset slf) = details slf"
  "plot (reset slf) = plot slf"
  by (simp_all add: reset_def)

lemma iter_body_fit_self:
  "iter_body ((reset slf)\<lparr>self_target_list := Some targets, self_df := Some d\<rparr>) d targets rng
     = iter_body slf d targets rng"
  by (rule iter_body_cong) (simp_all add: reset_config)

lemma fit_range_error:
  assumes "py_range (number_of_adds slf) = Inl e"
  shows "outcome (fit slf d targets rng) = Inl e \<and> vars (fit slf d targets rng) = init_locals d"
  using assms by (simp add: fit_def Let_def reset_config)

lemma fit_loop_exn:
  assumes "py_range (number_of_adds slf) = Inr iters"
    and "for_loop (iter_body slf d targets rng) iters (init_locals d) = Inl (e, s)"
  shows "outcome (fit slf d targets rng) = Inl e \<and> vars (fit slf d targets rng) = s"
proof -
  have "py_range (number_of_adds ((reset slf)\<lparr>self_target_list := Some targets, self_df := Some d\<rparr>))
    = Inr iters"
    using assms(1) by (simp add: reset_config)
  with assms(2) show ?thesis
    by (simp add: fit_def Let_def iter_body_fit_self)
qed

lemma fit_loop_done:
  assumes "py_range (number_of_adds slf) = Inr iters"
    and "for_loop (iter_body slf d targets rng) iters (init_locals d) = Inr (c, s)"
  shows "vars (fit slf d targets rng) = s
    \<and> outcome (fit slf d targets rng) =
        (if res_std s \<noteq> [] \<and> plot slf
         then (case plot_all_tries (res_std s) (res_bad s) of
                 Inl e \<Rightarrow> Inl e
               | Inr u \<Rightarrow> Inr (FrameAndPlot (df_new s)))
         else Inr (Frame (df_new s)))
    \<and> self_df_new (obj (fit slf d targets rng)) = Some (df_new s)
    \<and> self_res_std (obj (fit slf d targets rng)) = Some (res_std s)
    \<and> self_res_bad (obj (fit slf d targets rng)) = Some (res_bad s)"
proof -
  have "py_range (number_of_adds ((reset slf)\<lparr>self_target_list := Some targets, self_df := Some d\<rparr>))
    = Inr iters"
    using assms(1) by (simp add: reset_config)
  with assms(2) show ?thesis
    by (simp add: fit_def Let_def iter_body_fit_self reset_config split: sum.splits)
qed

lemma fit_vars_cases:
  "(\<exists>e. py_range (number_of_adds slf) = Inl e \<and> vars (fit slf d targets rng) = init_locals d)
   \<or> (\<exists>iters c. py_range (number_of_adds slf) = Inr iters
        \<and> for_loop (iter_body slf d targets rng) iters (init_locals d)
            = Inr (c, vars (fit slf d targets rng)))
   \<or> (\<exists>iters e. py_range (number_of_adds slf) = Inr iters
        \<and> for_loop (iter_body slf d targets rng) iters (init_locals d)
            = Inl (e, vars (fit slf d targets rng)))"
proof (cases "py_range (number_of_adds slf)")
  case (Inl e)
  with fit_range_error[OF this] show ?thesis by simp
next
  case (Inr iters)
  show ?thesis
  proof (cases "for_loop (iter_body slf d targets rng) iters (init_locals d)")
    case (Inl p)
    obtain e s where "p = (e, s)" by (cases p)
    with Inl fit_loop_exn[OF Inr, of d targets rng e s] Inr show ?thesis by simp
  next
    case inr: (Inr p)
    obtain c s where "p = (c, s)" by (cases p)
    with inr fit_loop_done[OF Inr, of d targets rng c s] Inr show ?thesis by simp
  qed
qed

lemma fit_returns_df_new:
  assumes "outcome (fit slf d targets rng) = Inr v"
  shows "(v = Frame (df_new (vars (fit slf d targets rng)))
          \<and> (res_std (vars (fit slf d targets rng)) = [] \<or> \<not> plot slf)
        \<or> v = FrameAndPlot (df_new (vars (fit slf d targets rng)))
          \<and> res_std (vars (fit slf d targets rng)) \<noteq> [] \<and> plot slf)
    \<and> self_df_new (obj (fit slf d targets rng)) = Some (df_new (vars (fit slf d targets rng)))
    \<and> self_res_std (obj (fit slf d targets rng)) = Some (res_std (vars (fit slf d targets rng)))
    \<and> self_res_bad (obj (fit slf d targets rng)) = Some (res_bad (vars (fit slf d targets rng)))"
proof (cases "py_range (number_of_adds slf)")
  case (Inl e)
  with fit_range_error[OF this, of d targets rng] assms show ?thesis by simp
next
  case (Inr iters)
  show ?thesis
  proof (cases "for_loop (iter_body slf d targets rng) iters (init_locals d)")
    case (Inl p)
    obtain e s where "p = (e, s)" by (cases p)
    with Inl fit_loop_exn[OF Inr, of d targets rng e s] assms show ?thesis by simp
  next
    case inr: (Inr p)
    obtain c s where "p = (c, s)" by (cases p)
    with inr fit_loop_done[OF Inr, of d targets rng c s] assms show ?thesis
      by (auto split: if_splits sum.splits)
  qed
qed

lemma size_inv_fit: "size_inv d (vars (fit slf d targets rng))"
  using fit_vars_cases[of slf d targets rng] size_inv_init[of d]
    size_inv_iter_loop[OF size_inv_init, where d = d and slf = slf and targets = targets and rng = rng]
  by auto

lemma fit_accept_bound:
  assumes "number_of_adds slf = PyInt n" and "0 \<le> n"
  shows "int (length (res_std (vars (fit slf d targets rng)))) \<le> n"
proof -
  have r: "py_range (number_of_adds slf) = Inr [0..<nat n]" using assms by simp
  from fit_vars_cases[of slf d targets rng] r
  have "(\<exists>c. for_loop (iter_body slf d targets rng) [0..<nat n] (init_locals d)
            = Inr (c, vars (fit slf d targets rng)))
     \<or> (\<exists>e. for_loop (iter_body slf d targets rng) [0..<nat n] (init_locals d)
            = Inl (e, vars (fit slf d targets rng)))"
    by auto
  with iter_loop_accept_bound[of slf d targets rng "[0..<nat n]" "init_locals d"]
  have "length (res_std (vars (fit slf d targets rng))) \<le> length (res_std (init_locals d)) + nat n"
    by auto
  with assms(2) show ?thesis by (simp add: init_locals_def)
qed


subsection \<open>Runs on well-formed input raise nothing in the loops\<close>

lemma for_loop_total:
  assumes step: "\<And>x s. P s \<Longrightarrow> \<exists>c s'. body x s = Inr (c, s') \<and> P s'"
    and "P s"
  shows "\<exists>c s'. for_loop body xs s = Inr (c, s') \<and> P s'"
  using assms(2)
proof (induction xs arbitrary: s)
  case Nil
  then show ?case by simp
next
  case (Cons x xs)
  from step[OF Cons.prems, of x] obtain c1 s1 where b: "body x s = Inr (c1, s1)" and P1: "P s1"
    by blast
  show ?case
  proof (cases c1)
    case Break
    with b P1 show ?thesis by simp
  next
    case Continue
    with b Cons.IH[OF P1] show ?thesis by simp
  qed
qed

lemma score_of_defined:
  "set targets \<subseteq> set (columns f) \<Longrightarrow> \<exists>sc. score_of f targets = Inr sc"
  by (simp add: score_of_def select_sum_def)

lemma score_of_KeyError:
  "\<not> set targets \<subseteq> set (columns f) \<Longrightarrow> score_of f targets = Inl KeyError"
  by (simp add: score_of_def select_sum_def)

lemma columns_concat_row: "columns (concat_row f r) = columns f"
  by (simp add: concat_row_def)

lemma try_body_total:
  assumes "rows d \<noteq> []" and "set targets \<subseteq> set (columns d)" and "columns (df_new s) = columns d"
  shows "\<exists>c s'. try_body slf d targets rng iter cur t s = Inr (c, s')
    \<and> columns (df_new s') = columns d"
proof -
  from assms(1) obtain random_row where r: "sample d (rng (draws s)) = Inr random_row"
    by (simp add: sample_def)
  from assms(2,3) score_of_defined[of targets "concat_row (df_new s) random_row"]
  obtain new_std where n: "score_of (concat_row (df_new s) random_row) targets = Inr new_std"
    by (auto simp: columns_concat_row)
  from r n assms(3) show ?thesis
    by (simp add: try_body_def Let_def columns_concat_row)
qed

lemma iter_body_total:
  assumes "rows d \<noteq> []" and "set targets \<subseteq> set (columns d)" and "columns (df_new s) = columns d"
    and "number_of_tries slf = PyInt m" and "0 < m"
  shows "\<exists>c s'. iter_body slf d targets rng iter s = Inr (c, s')
    \<and> columns (df_new s') = columns d"
proof -
  from assms(2,3) score_of_defined[of targets "df_new s"]
  obtain cur where cur: "score_of (df_new s) targets = Inr cur" by auto
  have ts: "py_range (number_of_tries slf) = Inr [0..<nat m]" using assms(4) by simp
  have ne: "[0..<nat m] \<noteq> []" using assms(5) by simp
  have "\<exists>c s'. for_loop (try_body slf d targets rng iter cur) [0..<nat m] (s\<lparr>not_working := []\<rparr>)
      = Inr (c, s') \<and> columns (df_new s') = columns d"
    by (rule for_loop_total[where P = "\<lambda>s. columns (df_new s) = columns d"])
       (use assms(1,2,3) try_body_total in auto)
  then obtain c2 s2 where
    loop: "for_loop (try_body slf d targets rng iter cur) [0..<nat m] (s\<lparr>not_working := []\<rparr>)
      = Inr (c2, s2)"
    and cols: "columns (df_new s2) = columns d"
    by blast
  have "\<exists>t. try_var s2 = Some t"
  proof (cases c2)
    case Continue
    with loop try_loop_Continue[of slf d targets rng iter cur "[0..<nat m]" "s\<lparr>not_working := []\<rparr>" s2] ne
    show ?thesis by simp
  next
    case Break
    with loop try_loop_Break[of slf d targets rng iter cur "[0..<nat m]" "s\<lparr>not_working := []\<rparr>" s2]
    show ?thesis by auto
  qed
  then obtain t where t: "try_var s2 = Some t" by blast
  from cur ts loop t cols show ?thesis
    by (simp add: iter_body_def Let_def)
qed

lemma iter_loop_total:
  assumes "rows d \<noteq> []" and "set targets \<subseteq> set (columns d)"
    and "number_of_tries slf = PyInt m" and "0 < m"
  shows "\<exists>c s'. for_loop (iter_body slf d targets rng) iters (init_locals d) = Inr (c, s')"
proof -
  have "\<exists>c s'. for_loop (iter_body slf d targets rng) iters (init_locals d) = Inr (c, s')
    \<and> columns (df_new s') = columns d"
    by (rule for_loop_total[where P = "\<lambda>s. columns (df_new s) = columns d"])
       (use assms iter_body_total in \<open>auto simp: init_locals_def\<close>)
  then show ?thesis by blast
qed

text \<open>With an empty \<open>target_list\<close> no score evaluation fails, so no KeyError arises.\<close>

lemma for_loop_exn_kind:
  assumes "\<And>x s e s'. body x s = Inl (e, s') \<Longrightarrow> Q e"
    and "for_loop body xs s = Inl (e, s')"
  shows "Q e"
  using assms(2)
proof (induction xs arbitrary: s)
  case Nil
  then show ?case by simp
next
  case (Cons x xs)
  show ?case
  proof (cases "body x s")
    case (Inl p)
    with Cons.prems assms(1)[of x s e s'] show ?thesis by simp
  next
    case (Inr p)
    obtain c1 s1 where "p = (c1, s1)" by (cases p)
    with Cons.prems Inr Cons.IH[of s1] show ?thesis by (cases c1) simp_all
  qed
qed

lemma score_of_Nil: "score_of f [] = Inr NaN"
  by (simp add: score_of_def select_sum_def std_def)

lemma try_body_Nil_exn:
  "try_body slf d [] rng iter cur t s = Inl (e, s') \<Longrightarrow> e \<noteq> KeyError"
  by (auto simp: try_body_def Let_def score_of_Nil sample_def split: sum.splits if_splits)

lemma iter_body_Nil_exn:
  assumes "iter_body slf d [] rng iter s = Inl (e, s')"
  shows "e \<noteq> KeyError"
proof (cases "py_range (number_of_tries slf)")
  case (Inl a)
  then have "a = TypeError" by (cases "number_of_tries slf") auto
  with Inl assms show ?thesis by (auto simp: iter_body_def Let_def score_of_Nil)
next
  case ts: (Inr ts)
  show ?thesis
  proof (cases "for_loop (try_body slf d [] rng iter NaN) ts (s\<lparr>not_working := []\<rparr>)")
    case (Inl p)
    with assms ts have l: "for_loop (try_body slf d [] rng iter NaN) ts (s\<lparr>not_working := []\<rparr>)
      = Inl (e, s')"
      by (simp add: iter_body_def Let_def score_of_Nil)
    show ?thesis
      by (rule for_loop_exn_kind[where Q = "\<lambda>e. e \<noteq> KeyError", OF _ l]) (rule try_body_Nil_exn)
  next
    case (Inr p)
    with assms ts show ?thesis
      by (auto simp: iter_body_def Let_def score_of_Nil split: option.splits if_splits prod.splits)
  qed
qed

lemma fit_Nil_no_KeyError: "outcome (fit slf d [] rng) \<noteq> Inl KeyError"
proof (cases "py_range (number_of_adds slf)")
  case (Inl e)
  then have "e = TypeError" by (cases "number_of_adds slf") auto
  with fit_range_error[OF Inl, of d "[]" rng] show ?thesis by simp
next
  case (Inr iters)
  show ?thesis
  proof (cases "for_loop (iter_body slf d [] rng) iters (init_locals d)")
    case (Inl p)
    obtain e s where p: "p = (e, s)" by (cases p)
    have "e \<noteq> KeyError"
      by (rule for_loop_exn_kind[where Q = "\<lambda>e. e \<noteq> KeyError", OF _ Inl[unfolded p]])
         (rule iter_body_Nil_exn)
    with fit_loop_exn[OF Inr Inl[unfolded p]] show ?thesis by simp
  next
    case inr: (Inr p)
    obtain c s where p: "p = (c, s)" by (cases p)
    from fit_loop_done[OF Inr inr[unfolded p]] show ?thesis
      by (auto simp: plot_all_tries_def split: list.splits if_splits)
  qed
qed

subsection \<open>Iterations that let the run go on, and stalls\<close>

lemma last_upt_nat: "0 < m \<Longrightarrow> last [0..<nat m] = nat m - 1"
  by (cases "nat m") simp_all

lemma iter_body_Continue_accepts:
  assumes "iter_body slf d targets rng iter s = Inr (Continue, s')"
    and "number_of_tries slf = PyInt m" and "0 < m"
  shows "length (res_std s') = Suc (length (res_std s))"
proof -
  from iter_body_Inr[OF assms(1)] assms(2) obtain cur c2 s2 t where
    loop: "for_loop (try_body slf d targets rng iter cur) [0..<nat m] (s\<lparr>not_working := []\<rparr>)
      = Inr (c2, s2)"
    and t: "try_var s2 = Some t"
    and ne: "int t + 1 \<noteq> m"
    and s': "s' = s2\<lparr>res_bad := res_bad s2 @ [not_working s2]\<rparr>"
    by (auto split: if_splits)
  show ?thesis
  proof (cases c2)
    case Continue
    with loop try_loop_Continue[of slf d targets rng iter cur "[0..<nat m]" "s\<lparr>not_working := []\<rparr>" s2]
    have "try_var s2 = Some (last [0..<nat m])" using assms(3) by simp
    with t last_upt_nat[OF assms(3)] have "t = nat m - 1" by simp
    with assms(3) ne show ?thesis by simp
  next
    case Break
    with loop try_loop_Break[of slf d targets rng iter cur "[0..<nat m]" "s\<lparr>not_working := []\<rparr>" s2] s'
    show ?thesis by auto
  qed
qed

lemma iter_loop_Continue_count:
  assumes "number_of_tries slf = PyInt m" and "0 < m"
    and "for_loop (iter_body slf d targets rng) iters s = Inr (Continue, s')"
  shows "length (res_std s') = length (res_std s) + length iters"
  using assms(3)
proof (induction iters arbitrary: s)
  case Nil
  then show ?case by simp
next
  case (Cons i iters)
  from Cons.prems obtain s1 where
    b: "iter_body slf d targets rng i s = Inr (Continue, s1)"
    and r: "for_loop (iter_body slf d targets rng) iters s1 = Inr (Continue, s')"
    by (auto split: sum.splits ctl.splits)
  from iter_body_Continue_accepts[OF b assms(1,2)] Cons.IH[OF r] show ?case by simp
qed

lemma iter_body_stall:
  assumes "score_of (df_new s) targets = Inr cur"
    and "number_of_tries slf = PyInt m" and "0 < m"
    and "for_loop (try_body slf d targets rng iter cur) [0..<nat m] (s\<lparr>not_working := []\<rparr>)
      = Inr (Continue, s2)"
  shows "iter_body slf d targets rng iter s
    = Inr (Break, s2\<lparr>printed := printed s2 @ [NoImprovement (PyInt m) iter]\<rparr>)"
proof -
  from try_loop_Continue[OF assms(4)] assms(3)
  have "try_var s2 = Some (last [0..<nat m])" by simp
  with last_upt_nat[OF assms(3)] have t: "try_var s2 = Some (nat m - 1)" by simp
  have "int (nat m - 1) + 1 = m" using assms(3) by simp
  with assms(1,2,4) t show ?thesis
    by (simp add: iter_body_def Let_def)
qed

subsection \<open>The trace of accepted scores\<close>

lemma score_less_irrefl: "\<not> score_less sc sc"
  by (cases sc) simp_all

lemma score_less_trans: "score_less a b \<Longrightarrow> score_less b c \<Longrightarrow> score_less a c"
  by (cases a; cases b; cases c) simp_all

lemma trace_inv_init: "trace_inv targets (init_locals d)"
  by (simp add: trace_inv_def init_locals_def)

lemma trace_inv_same:
  "trace_inv targets s \<Longrightarrow> df_new s' = df_new s \<Longrightarrow> res_std s' = res_std s
    \<Longrightarrow> trace_inv targets s'"
  by (simp add: trace_inv_def)

lemma trace_inv_accept:
  assumes inv: "trace_inv targets s"
    and cur: "score_of (df_new s) targets = Inr cur"
    and new: "score_of (df_new s') targets = Inr new_std"
    and less: "score_less new_std cur"
    and app: "res_std s' = res_std s @ [new_std]"
  shows "trace_inv targets s'"
proof -
  from inv cur have old: "\<forall>y \<in> set (res_std s). y = cur \<or> score_less cur y"
    by (simp add: trace_inv_def)
  have below: "\<forall>y \<in> set (res_std s). score_less new_std y"
  proof
    fix y assume "y \<in> set (res_std s)"
    with old have "y = cur \<or> score_less cur y" by blast
    with less show "score_less new_std y" using score_less_trans by blast
  qed
  from inv have "sorted_wrt (\<lambda>a b. score_less b a) (res_std s)" by (simp add: trace_inv_def)
  with below have "sorted_wrt (\<lambda>a b. score_less b a) (res_std s @ [new_std])"
    by (simp add: sorted_wrt_append)
  with below new app show ?thesis by (auto simp: trace_inv_def)
qed

lemma trace_inv_iter_body:
  assumes "trace_inv targets s" and "iter_body slf d targets rng iter s = Inr (c, s')"
  shows "trace_inv targets s'"
proof -
  from iter_body_effect[OF assms(2)] obtain cur where
    cur: "score_of (df_new s) targets = Inr cur"
    and eff: "(df_new s' = df_new s \<and> res_std s' = res_std s)
       \<or> (\<exists>random_row new_std.
            score_of (concat_row (df_new s) random_row) targets = Inr new_std
            \<and> score_less new_std cur
            \<and> df_new s' = concat_row (df_new s) random_row
            \<and> res_std s' = res_std s @ [new_std])"
    by blast
  from eff show ?thesis
  proof
    assume "df_new s' = df_new s \<and> res_std s' = res_std s"
    with assms(1) show ?thesis using trace_inv_same by blast
  next
    assume "\<exists>random_row new_std.
            score_of (concat_row (df_new s) random_row) targets = Inr new_std
            \<and> score_less new_std cur
            \<and> df_new s' = concat_row (df_new s) random_row
            \<and> res_std s' = res_std s @ [new_std]"
    then obtain random_row new_std where
      "score_of (df_new s') targets = Inr new_std" "score_less new_std cur"
      "res_std s' = res_std s @ [new_std]"
      by auto
    with trace_inv_accept[OF assms(1) cur] show ?thesis by blast
  qed
qed

lemma trace_inv_iter_body_Inl:
  assumes "trace_inv targets s" and "iter_body slf d targets rng iter s = Inl (e, s')"
  shows "trace_inv targets s'"
  using assms(1) iter_body_Inl[OF assms(2)] trace_inv_same by blast

lemma trace_inv_fit: "trace_inv targets (vars (fit slf d targets rng))"
proof -
  have step: "\<And>x s c s'. trace_inv targets s \<Longrightarrow> iter_body slf d targets rng x s = Inr (c, s')
    \<Longrightarrow> trace_inv targets s'"
    using trace_inv_iter_body by blast
  have fail: "\<And>x s e s'. trace_inv targets s \<Longrightarrow> iter_body slf d targets rng x s = Inl (e, s')
    \<Longrightarrow> trace_inv targets s'"
    using trace_inv_iter_body_Inl by blast
  from fit_vars_cases[of slf d targets rng] show ?thesis
  proof (elim disjE exE conjE)
    fix e assume "vars (fit slf d targets rng) = init_locals d"
    then show ?thesis by (simp add: trace_inv_init)
  next
    fix iters c
    assume "for_loop (iter_body slf d targets rng) iters (init_locals d)
      = Inr (c, vars (fit slf d targets rng))"
    from for_loop_inv[where P = "trace_inv targets", OF step trace_inv_init this]
    show ?thesis .
  next
    fix iters e
    assume "for_loop (iter_body slf d targets rng) iters (init_locals d)
      = Inl (e, vars (fit slf d targets rng))"
    from for_loop_inv_exn[where P = "trace_inv targets", OF step fail trace_inv_init this]
    show ?thesis .
  qed
qed

subsection \<open>Fewer than two label columns\<close>

lemma score_of_short:
  "length targets < 2 \<Longrightarrow> set targets \<subseteq> set (columns f) \<Longrightarrow> score_of f targets = Inr NaN"
  by (simp add: score_of_def select_sum_def std_def)

lemma score_less_NaN: "\<not> score_less x NaN \<and> \<not> score_less NaN x"
  by (cases x) simp_all

lemma try_body_NaN:
  assumes "rows d \<noteq> []" and "length targets < 2" and "set targets \<subseteq> set (columns d)"
    and "df_new s = d"
  shows "try_body slf d targets rng iter NaN t s
    = Inr (Continue, s\<lparr>try_var := Some t, draws := Suc (draws s),
        not_working := not_working s
          @ [(fst (rows d ! (rng (draws s) mod length (rows d))), NaN)]\<rparr>)"
proof -
  have "score_of (concat_row d (rows d ! (rng (draws s) mod length (rows d)))) targets = Inr NaN"
    using assms(2,3) by (simp add: score_of_short columns_concat_row)
  with assms(1,4) show ?thesis
    by (simp add: try_body_def Let_def sample_def)
qed

lemma try_loop_NaN:
  assumes "rows d \<noteq> []" and "length targets < 2" and "set targets \<subseteq> set (columns d)"
    and "df_new s = d"
  shows "\<exists>s'. for_loop (try_body slf d targets rng iter NaN) ts s = Inr (Continue, s')
    \<and> (\<forall>p \<in> set (not_working s'). p \<in> set (not_working s) \<or> snd p = NaN)"
  using assms(4)
proof (induction ts arbitrary: s)
  case Nil
  then show ?case by simp
next
  case (Cons t ts)
  let ?s1 = "s\<lparr>try_var := Some t, draws := Suc (draws s),
        not_working := not_working s
          @ [(fst (rows d ! (rng (draws s) mod length (rows d))), NaN)]\<rparr>"
  have b: "try_body slf d targets rng iter NaN t s = Inr (Continue, ?s1)"
    by (rule try_body_NaN[OF assms(1,2,3) Cons.prems])
  have "df_new ?s1 = d" using Cons.prems by simp
  from Cons.IH[OF this] obtain s' where
    r: "for_loop (try_body slf d targets rng iter NaN) ts ?s1 = Inr (Continue, s')"
    and nw: "\<forall>p \<in> set (not_working s'). p \<in> set (not_working ?s1) \<or> snd p = NaN"
    by blast
  from b r have "for_loop (try_body slf d targets rng iter NaN) (t # ts) s = Inr (Continue, s')"
    by simp
  moreover from nw have "\<forall>p \<in> set (not_working s'). p \<in> set (not_working s) \<or> snd p = NaN"
    by auto
  ultimately show ?case by blast
qed

subsection \<open>The history of rejected tries\<close>

lemma for_loop_Break_split:
  assumes "for_loop body xs s = Inr (Break, s')"
  shows "\<exists>pre x post s1. xs = pre @ x # post
    \<and> for_loop body pre s = Inr (Continue, s1) \<and> body x s1 = Inr (Break, s')"
  using assms
proof (induction xs arbitrary: s)
  case Nil
  then show ?case by simp
next
  case (Cons x xs)
  from Cons.prems obtain c1 s1 where b: "body x s = Inr (c1, s1)"
    by (auto split: sum.splits)
  show ?case
  proof (cases c1)
    case Break
    with Cons.prems b have "x # xs = [] @ x # xs \<and> for_loop body [] s = Inr (Continue, s)
      \<and> body x s = Inr (Break, s')" by simp
    then show ?thesis by blast
  next
    case Continue
    with Cons.prems b have "for_loop body xs s1 = Inr (Break, s')" by simp
    from Cons.IH[OF this] obtain pre y post s2 where
      "xs = pre @ y # post" "for_loop body pre s1 = Inr (Continue, s2)" "body y s2 = Inr (Break, s')"
      by blast
    with b Continue have "x # xs = (x # pre) @ y # post
      \<and> for_loop body (x # pre) s = Inr (Continue, s2) \<and> body y s2 = Inr (Break, s')"
      by simp
    then show ?thesis by blast
  qed
qed

text \<open>The rejected tries of one try loop, in the order of the draws.\<close>

lemma try_loop_not_working:
  assumes "for_loop (try_body slf d targets rng iter cur) ts s = Inr (c, s')"
  shows "\<exists>ext. not_working s' = not_working s @ ext
    \<and> (\<forall>j<length ext. \<exists>random_row new_std.
          sample d (rng (draws s + j)) = Inr random_row
        \<and> score_of (concat_row (df_new s) random_row) targets = Inr new_std
        \<and> \<not> score_less new_std cur
        \<and> ext ! j = (fst random_row, new_std))"
  using assms
proof (induction ts arbitrary: s)
  case Nil
  then show ?case by simp
next
  case (Cons t ts)
  from Cons.prems obtain c1 s1 where
    b: "try_body slf d targets rng iter cur t s = Inr (c1, s1)"
    by (auto split: sum.splits)
  show ?case
  proof (cases c1)
    case Break
    with Cons.prems b have "s' = s1" by simp
    with b Break try_body_Break[of slf d targets rng iter cur t s s1]
    have "not_working s' = not_working s @ []" by auto
    then show ?thesis by (intro exI[of _ "[]"]) simp
  next
    case Continue
    with Cons.prems b have r: "for_loop (try_body slf d targets rng iter cur) ts s1 = Inr (c, s')"
      by simp
    from b Continue try_body_Continue[of slf d targets rng iter cur t s s1]
    obtain random_row new_std where
      first: "sample d (rng (draws s)) = Inr random_row"
        "score_of (concat_row (df_new s) random_row) targets = Inr new_std"
        "\<not> score_less new_std cur"
      and s1: "df_new s1 = df_new s" "draws s1 = Suc (draws s)"
        "not_working s1 = not_working s @ [(fst random_row, new_std)]"
      by auto
    from Cons.IH[OF r] obtain ext where
      ext: "not_working s' = not_working s1 @ ext"
      and rest: "\<forall>j<length ext. \<exists>random_row new_std.
          sample d (rng (draws s1 + j)) = Inr random_row
        \<and> score_of (concat_row (df_new s1) random_row) targets = Inr new_std
        \<and> \<not> score_less new_std cur
        \<and> ext ! j = (fst random_row, new_std)"
      by blast
    let ?ext = "(fst random_row, new_std) # ext"
    have "not_working s' = not_working s @ ?ext" using ext s1 by simp
    moreover have "\<forall>j<length ?ext. \<exists>random_row new_std.
          sample d (rng (draws s + j)) = Inr random_row
        \<and> score_of (concat_row (df_new s) random_row) targets = Inr new_std
        \<and> \<not> score_less new_std cur
        \<and> ?ext ! j = (fst random_row, new_std)"
    proof (intro allI impI)
      fix j assume j: "j < length ?ext"
      show "\<exists>random_row new_std.
          sample d (rng (draws s + j)) = Inr random_row
        \<and> score_of (concat_row (df_new s) random_row) targets = Inr new_std
        \<and> \<not> score_less new_std cur
        \<and> ?ext ! j = (fst random_row, new_std)"
      proof (cases j)
        case 0
        with first show ?thesis by simp
      next
        case (Suc j')
        with j have "j' < length ext" by simp
        with rest s1 Suc show ?thesis by simp
      qed
    qed
    ultimately show ?thesis by blast
  qed
qed

lemma iter_body_res_bad:
  assumes "iter_body slf d targets rng iter u = Inr (c, u')"
  shows "(\<exists>cur. score_of (df_new u) targets = Inr cur
      \<and> (\<forall>j<length (not_working u'). \<exists>random_row new_std.
            sample d (rng (draws u + j)) = Inr random_row
          \<and> score_of (concat_row (df_new u) random_row) targets = Inr new_std
          \<and> \<not> score_less new_std cur
          \<and> not_working u' ! j = (fst random_row, new_std)))
    \<and> (if c = Continue then res_bad u' = res_bad u @ [not_working u']
       else res_bad u' = res_bad u
          \<and> last (printed u') = NoImprovement (number_of_tries slf) iter)"
proof -
  from iter_body_Inr[OF assms] obtain cur ts c2 s2 t where
    cur: "score_of (df_new u) targets = Inr cur"
    and loop: "for_loop (try_body slf d targets rng iter cur) ts (u\<lparr>not_working := []\<rparr>)
      = Inr (c2, s2)"
    and fin: "if py_eq_int (int t + 1) (number_of_tries slf)
       then c = Break
          \<and> u' = s2\<lparr>printed := printed s2 @ [NoImprovement (number_of_tries slf) iter]\<rparr>
       else c = Continue \<and> u' = s2\<lparr>res_bad := res_bad s2 @ [not_working s2]\<rparr>"
    by blast
  from fin have nw: "not_working u' = not_working s2" by (auto split: if_splits)
  have rb: "res_bad s2 = res_bad u"
  proof (cases c2)
    case Continue
    with loop try_loop_Continue[of slf d targets rng iter cur ts "u\<lparr>not_working := []\<rparr>" s2]
    show ?thesis by simp
  next
    case Break
    with loop try_loop_Break[of slf d targets rng iter cur ts "u\<lparr>not_working := []\<rparr>" s2]
    show ?thesis by auto
  qed
  from try_loop_not_working[OF loop] nw
  have content: "\<forall>j<length (not_working u'). \<exists>random_row new_std.
            sample d (rng (draws u + j)) = Inr random_row
          \<and> score_of (concat_row (df_new u) random_row) targets = Inr new_std
          \<and> \<not> score_less new_std cur
          \<and> not_working u' ! j = (fst random_row, new_std)"
    by auto
  from fin rb nw have "if c = Continue then res_bad u' = res_bad u @ [not_working u']
       else res_bad u' = res_bad u
          \<and> last (printed u') = NoImprovement (number_of_tries slf) iter"
    by (auto split: if_splits)
  with cur content show ?thesis by blast
qed

text \<open>
  How many tries an iteration records: all of its budget when none is accepted, and
  otherwise the tries before the accepted one, whose index \<open>try_\<close> then holds.
\<close>

lemma upt_split_index: "[0..<k] = pre @ t # post \<Longrightarrow> t = length pre \<and> length pre < k"
proof -
  assume split: "[0..<k] = pre @ t # post"
  then have "length pre < length [0..<k]" by simp
  then have lt: "length pre < k" by simp
  have "[0..<k] ! length pre = t" unfolding split by simp
  with lt show ?thesis by simp
qed

lemma py_range_upt: "py_range v = Inr ts \<Longrightarrow> \<exists>k. ts = [0..<k]"
  by (cases v) auto

lemma iter_body_not_working_count:
  assumes "iter_body slf d targets rng iter u = Inr (c, u')"
  shows "\<exists>ts cur. py_range (number_of_tries slf) = Inr ts
    \<and> score_of (df_new u) targets = Inr cur
    \<and> (if res_std u' = res_std u
       then length (not_working u') = length ts
          \<and> draws u' = draws u + length ts \<and> df_new u' = df_new u
       else length (not_working u') < length ts
          \<and> try_var u' = Some (length (not_working u'))
          \<and> draws u' = Suc (draws u + length (not_working u'))
          \<and> (\<exists>random_row new_std.
                sample d (rng (draws u + length (not_working u'))) = Inr random_row
              \<and> score_of (concat_row (df_new u) random_row) targets = Inr new_std
              \<and> score_less new_std cur
              \<and> df_new u' = concat_row (df_new u) random_row
              \<and> res_std u' = res_std u @ [new_std]))"
proof -
  from iter_body_Inr[OF assms] obtain cur ts c2 s2 t where
    cur: "score_of (df_new u) targets = Inr cur"
    and ts: "py_range (number_of_tries slf) = Inr ts"
    and loop: "for_loop (try_body slf d targets rng iter cur) ts (u\<lparr>not_working := []\<rparr>)
      = Inr (c2, s2)"
    and fin: "if py_eq_int (int t + 1) (number_of_tries slf)
       then c = Break
          \<and> u' = s2\<lparr>printed := printed s2 @ [NoImprovement (number_of_tries slf) iter]\<rparr>
       else c = Continue \<and> u' = s2\<lparr>res_bad := res_bad s2 @ [not_working s2]\<rparr>"
    by blast
  from fin have same: "not_working u' = not_working s2" "res_std u' = res_std s2"
    "try_var u' = try_var s2" "draws u' = draws s2" "df_new u' = df_new s2"
    by (auto split: if_splits)
  show ?thesis
  proof (cases c2)
    case Continue
    with loop try_loop_Continue[of slf d targets rng iter cur ts "u\<lparr>not_working := []\<rparr>" s2]
    have "res_std s2 = res_std u \<and> df_new s2 = df_new u \<and> draws s2 = draws u + length ts
      \<and> length (not_working s2) = length ts"
      by simp
    with same cur ts show ?thesis by auto
  next
    case Break
    with loop have "for_loop (try_body slf d targets rng iter cur) ts (u\<lparr>not_working := []\<rparr>)
      = Inr (Break, s2)" by simp
    from try_loop_Break[OF this] obtain pre :: "nat list" and t' post random_row new_std where
      split: "ts = pre @ t' # post"
      and h: "sample d (rng (draws (u\<lparr>not_working := []\<rparr>) + length pre)) = Inr random_row"
        "score_of (concat_row (df_new (u\<lparr>not_working := []\<rparr>)) random_row) targets = Inr new_std"
        "score_less new_std cur"
        "df_new s2 = concat_row (df_new (u\<lparr>not_working := []\<rparr>)) random_row"
        "res_std s2 = res_std (u\<lparr>not_working := []\<rparr>) @ [new_std]"
        "try_var s2 = Some t'"
        "draws s2 = Suc (draws (u\<lparr>not_working := []\<rparr>) + length pre)"
        "length (not_working s2) = length (not_working (u\<lparr>not_working := []\<rparr>)) + length pre"
      by blast
    from py_range_upt[OF ts] obtain k where k: "ts = [0..<k]" by blast
    with split upt_split_index[of k pre t' post] have idx: "t' = length pre" by simp
    from split have lt: "length pre < length ts" by simp
    from h(8) have n: "length (not_working u') = length pre" using same by simp
    have ne: "res_std u' \<noteq> res_std u" using h(5) same by simp
    have acc: "\<exists>random_row new_std.
                sample d (rng (draws u + length (not_working u'))) = Inr random_row
              \<and> score_of (concat_row (df_new u) random_row) targets = Inr new_std
              \<and> score_less new_std cur
              \<and> df_new u' = concat_row (df_new u) random_row
              \<and> res_std u' = res_std u @ [new_std]"
      using h(1-5) n same by auto
    have "length (not_working u') < length ts
          \<and> try_var u' = Some (length (not_working u'))
          \<and> draws u' = Suc (draws u + length (not_working u'))"
      using lt n idx h(6,7) same by simp
    with ne acc cur ts show ?thesis by auto
  qed
qed

lemma iter_loop_res_bad_count:
  assumes "for_loop (iter_body slf d targets rng) iters s = Inr (Continue, s')"
  shows "length (res_bad s') = length (res_bad s) + length iters"
  using assms
proof (induction iters arbitrary: s)
  case Nil
  then show ?case by simp
next
  case (Cons i iters)
  from Cons.prems obtain s1 where
    b: "iter_body slf d targets rng i s = Inr (Continue, s1)"
    and r: "for_loop (iter_body slf d targets rng) iters s1 = Inr (Continue, s')"
    by (auto split: sum.splits ctl.splits)
  from iter_body_res_bad[OF b] have "length (res_bad s1) = Suc (length (res_bad s))" by simp
  with Cons.IH[OF r] show ?case by simp
qed

lemma iter_loop_res_bad_extends:
  assumes "for_loop (iter_body slf d targets rng) iters s = Inr (c, s')"
  shows "\<exists>ext. res_bad s' = res_bad s @ ext"
proof -
  have step: "\<And>x s1 c1 s2. \<exists>ext. res_bad s1 = res_bad s @ ext
      \<Longrightarrow> iter_body slf d targets rng x s1 = Inr (c1, s2) \<Longrightarrow> \<exists>ext. res_bad s2 = res_bad s @ ext"
  proof -
    fix x s1 c1 s2
    assume p: "\<exists>ext. res_bad s1 = res_bad s @ ext"
      and b: "iter_body slf d targets rng x s1 = Inr (c1, s2)"
    from iter_body_res_bad[OF b] have "\<exists>e. res_bad s2 = res_bad s1 @ e"
      by (cases c1) auto
    with p show "\<exists>ext. res_bad s2 = res_bad s @ ext" by auto
  qed
  have "\<exists>ext. res_bad s = res_bad s @ ext" by simp
  from for_loop_inv[where P = "\<lambda>s1. \<exists>ext. res_bad s1 = res_bad s @ ext", OF step this assms]
  show ?thesis .
qed

lemma iter_loop_Break_res_bad:
  assumes "for_loop (iter_body slf d targets rng) [0..<n] s = Inr (Break, s')"
  shows "\<exists>b<n. last (printed s') = NoImprovement (number_of_tries slf) b
    \<and> length (res_bad s') = length (res_bad s) + b"
proof -
  from for_loop_Break_split[OF assms] obtain pre x post s1 where
    split: "[0..<n] = pre @ x # post"
    and before: "for_loop (iter_body slf d targets rng) pre s = Inr (Continue, s1)"
    and stop: "iter_body slf d targets rng x s1 = Inr (Break, s')"
    by blast
  from split have "length pre < length [0..<n]" by simp
  then have lt: "length pre < n" by simp
  have "[0..<n] ! length pre = x" unfolding split by simp
  with lt have x: "x = length pre" by simp
  from iter_body_res_bad[OF stop] have "res_bad s' = res_bad s1"
    and "last (printed s') = NoImprovement (number_of_tries slf) x" by simp_all
  with iter_loop_res_bad_count[OF before] x lt show ?thesis by auto
qed

lemma iter_loop_res_bad_entry:
  assumes "j < k" and "res_bad s = []"
    and first: "for_loop (iter_body slf d targets rng) [0..<Suc j] s = Inr (Continue, sj)"
    and whole: "for_loop (iter_body slf d targets rng) [0..<k] s = Inr (c, sk)"
  shows "j < length (res_bad sk) \<and> res_bad sk ! j = not_working sj
    \<and> (\<exists>s1. for_loop (iter_body slf d targets rng) [0..<j] s = Inr (Continue, s1)
           \<and> iter_body slf d targets rng j s1 = Inr (Continue, sj))"
proof -
  have "[0..<Suc j] = [0..<j] @ [j]" by simp
  with first have f: "for_loop (iter_body slf d targets rng) ([0..<j] @ [j]) s = Inr (Continue, sj)"
    by simp
  obtain s1 where pre: "for_loop (iter_body slf d targets rng) [0..<j] s = Inr (Continue, s1)"
  proof (cases "for_loop (iter_body slf d targets rng) [0..<j] s")
    case (Inl e)
    from for_loop_append_Inl[OF this, of "[j]"] f show ?thesis by simp
  next
    case (Inr p)
    obtain c1 s1 where p: "p = (c1, s1)" by (cases p)
    show ?thesis
    proof (cases c1)
      case Break
      with Inr p for_loop_append_Break[of "iter_body slf d targets rng" "[0..<j]" s s1 "[j]"] f
      show ?thesis by simp
    next
      case Continue
      with Inr p that show ?thesis by simp
    qed
  qed
  from for_loop_append_Continue[OF pre, of "[j]"] f
  have "for_loop (iter_body slf d targets rng) [j] s1 = Inr (Continue, sj)" by simp
  then have b: "iter_body slf d targets rng j s1 = Inr (Continue, sj)"
    by (auto split: sum.splits ctl.splits)
  from iter_body_res_bad[OF b] have app: "res_bad sj = res_bad s1 @ [not_working sj]" by simp
  from iter_loop_res_bad_count[OF pre] assms(2) have len: "length (res_bad s1) = j" by simp
  from assms(1) have "[0..<k] = [0..<Suc j] @ [Suc j..<k]"
    using upt_add_eq_append[of 0 "Suc j" "k - Suc j"] by simp
  with whole for_loop_append_Continue[OF first, of "[Suc j..<k]"]
  have "for_loop (iter_body slf d targets rng) [Suc j..<k] sj = Inr (c, sk)" by simp
  from iter_loop_res_bad_extends[OF this] obtain ext where "res_bad sk = res_bad sj @ ext"
    by blast
  with app len have "j < length (res_bad sk) \<and> res_bad sk ! j = not_working sj"
    by (simp add: nth_append)
  with pre b show ?thesis by blast
qed

subsection \<open>The rows of the working frame\<close>

lemma rows_inv_init: "rows_inv d (init_locals d)"
  by (simp add: rows_inv_def init_locals_def)

lemma rows_inv_iter_body:
  assumes "rows_inv d s" and "iter_body slf d targets rng iter s = Inr (c, s')"
  shows "rows_inv d s'"
proof -
  from assms(1) have len: "length (rows d) \<le> length (rows (df_new s))"
    by (metis rows_inv_def length_take min.cobounded1)
  from iter_body_effect[OF assms(2)]
  have "(df_new s' = df_new s)
    \<or> (\<exists>random_row. random_row \<in> set (rows d) \<and> df_new s' = concat_row (df_new s) random_row)"
    by blast
  then show ?thesis
  proof
    assume "df_new s' = df_new s"
    with assms(1) show ?thesis by (simp add: rows_inv_def)
  next
    assume "\<exists>random_row. random_row \<in> set (rows d) \<and> df_new s' = concat_row (df_new s) random_row"
    then obtain random_row where "random_row \<in> set (rows d)"
      and "df_new s' = concat_row (df_new s) random_row" by blast
    with assms(1) len show ?thesis by (simp add: rows_inv_def concat_row_def)
  qed
qed

lemma rows_inv_iter_body_Inl:
  assumes "rows_inv d s" and "iter_body slf d targets rng iter s = Inl (e, s')"
  shows "rows_inv d s'"
  using assms(1) iter_body_Inl[OF assms(2)] by (simp add: rows_inv_def)

lemma rows_inv_fit: "rows_inv d (vars (fit slf d targets rng))"
proof -
  have step: "\<And>x s c s'. rows_inv d s \<Longrightarrow> iter_body slf d targets rng x s = Inr (c, s')
    \<Longrightarrow> rows_inv d s'"
    using rows_inv_iter_body by blast
  have fail: "\<And>x s e s'. rows_inv d s \<Longrightarrow> iter_body slf d targets rng x s = Inl (e, s')
    \<Longrightarrow> rows_inv d s'"
    using rows_inv_iter_body_Inl by blast
  from fit_vars_cases[of slf d targets rng] show ?thesis
  proof (elim disjE exE conjE)
    fix e assume "vars (fit slf d targets rng) = init_locals d"
    then show ?thesis by (simp add: rows_inv_init)
  next
    fix iters c
    assume "for_loop (iter_body slf d targets rng) iters (init_locals d)
      = Inr (c, vars (fit slf d targets rng))"
    from for_loop_inv[where P = "rows_inv d", OF step rows_inv_init this]
    show ?thesis .
  next
    fix iters e
    assume "for_loop (iter_body slf d targets rng) iters (init_locals d)
      = Inl (e, vars (fit slf d targets rng))"
    from for_loop_inv_exn[where P = "rows_inv d", OF step fail rows_inv_init this]
    show ?thesis .
  qed
qed

subsection \<open>The store model and the value model\<close>

lemma for_loop_sim:
  assumes sim: "\<And>x s. I s \<Longrightarrow>
      body2 x (f s) = map_state f (body1 x s)"
    and keep: "\<And>x s c s'. I s \<Longrightarrow> body1 x s = Inr (c, s') \<Longrightarrow> I s'"
    and "I s"
  shows "for_loop body2 xs (f s) = map_state f (for_loop body1 xs s)"
  using assms(3)
proof (induction xs arbitrary: s)
  case Nil
  then show ?case by simp
next
  case (Cons x xs)
  show ?case
  proof (cases "body1 x s")
    case (Inl p)
    obtain e1 s1 where "p = (e1, s1)" by (cases p)
    with Inl sim[OF Cons.prems, of x] show ?thesis by simp
  next
    case (Inr p)
    obtain c1 s1 where p: "p = (c1, s1)" by (cases p)
    from keep[OF Cons.prems] Inr p have I1: "I s1" by simp
    from sim[OF Cons.prems, of x] Inr p have b2: "body2 x (f s) = Inr (c1, f s1)" by simp
    show ?thesis
    proof (cases c1)
      case Break
      with Inr p b2 show ?thesis by simp
    next
      case Continue
      with Inr p b2 Cons.IH[OF I1] show ?thesis by simp
    qed
  qed
qed

lemma store_inv_nth: "store_inv h st \<Longrightarrow> a < length h \<Longrightarrow> store st ! a = h ! a"
  by (metis store_inv_def nth_take)

lemma store_inv_length: "store_inv h st \<Longrightarrow> length h \<le> length (store st)"
  by (metis store_inv_def length_take min.cobounded1)

lemma st_try_body_sim:
  assumes "a < length h" and "store_inv h st"
  shows "try_body slf (h ! a) targets rng iter cur t (deref st)
    = map_state deref (st_try_body slf a targets rng iter cur t st)"
proof -
  have a: "store st ! a = h ! a" by (rule store_inv_nth[OF assms(2,1)])
  have la: "a < length (store st)" using store_inv_length[OF assms(2)] assms(1) by simp
  have lr: "ref_df_new st < length (store st)" using assms(2) by (simp add: store_inv_def)
  show ?thesis
  proof (cases "sample (h ! a) (rng (h_draws st))")
    case (Inl e)
    with a show ?thesis
      by (simp add: try_body_def st_try_body_def sample_obj_def deref_def Let_def)
  next
    case (Inr random_row)
    let ?h1 = "store st @ [(h ! a)\<lparr>rows := [random_row]\<rparr>]"
    let ?new = "(store st ! ref_df_new st)\<lparr>rows := rows (store st ! ref_df_new st) @ [random_row]\<rparr>"
    have c: "concat_obj ?h1 (ref_df_new st) (length (store st)) = (Suc (length (store st)), ?h1 @ [?new])"
      using lr by (simp add: concat_obj_def alloc_def nth_append)
    have v: "concat_row (store st ! ref_df_new st) random_row = ?new"
      by (simp add: concat_row_def)
    show ?thesis
    proof (cases "score_of ?new targets")
      case (Inl e)
      with Inr a c v lr show ?thesis
        by (simp add: try_body_def st_try_body_def sample_obj_def alloc_def deref_def Let_def
            nth_append)
    next
      case new: (Inr new_std)
      with Inr a c v lr show ?thesis
        by (simp add: try_body_def st_try_body_def sample_obj_def alloc_def deref_def Let_def
            nth_append)
    qed
  qed
qed

lemma st_try_body_store:
  assumes "store_inv h st"
  shows "(st_try_body slf a targets rng iter cur t st = Inr (c, st') \<longrightarrow> store_inv h st')
    \<and> (st_try_body slf a targets rng iter cur t st = Inl (e, st') \<longrightarrow> store_inv h st')"
proof (cases "sample (store st ! a) (rng (h_draws st))")
  case (Inl e1)
  then have "st_try_body slf a targets rng iter cur t st = Inl (e1, st\<lparr>h_try_var := Some t\<rparr>)"
    by (simp add: st_try_body_def sample_obj_def Let_def)
  with assms show ?thesis by (auto simp: store_inv_def)
next
  case (Inr random_row)
  let ?h1 = "store st @ [(store st ! a)\<lparr>rows := [random_row]\<rparr>]"
  let ?new = "(?h1 ! ref_df_new st)\<lparr>rows := rows (?h1 ! ref_df_new st) @ rows (?h1 ! length (store st))\<rparr>"
  let ?h2 = "?h1 @ [?new]"
  have so: "sample_obj (store st) a (rng (h_draws st)) = Inr (length (store st), ?h1)"
    using Inr by (simp add: sample_obj_def alloc_def)
  have co: "concat_obj ?h1 (ref_df_new st) (length (store st)) = (Suc (length (store st)), ?h2)"
    by (simp add: concat_obj_def alloc_def)
  have le: "length h \<le> length (store st)" by (rule store_inv_length[OF assms])
  then have tk: "take (length h) ?h2 = take (length h) (store st)" by simp
  have keep: "\<And>st'. store st' = ?h2
    \<Longrightarrow> ref_df_new st' = ref_df_new st \<or> ref_df_new st' = Suc (length (store st))
    \<Longrightarrow> store_inv h st'"
    using assms tk le by (auto simp: store_inv_def)
  show ?thesis
  proof (cases "score_of (?h2 ! Suc (length (store st))) targets")
    case (Inl e1)
    with so co have "st_try_body slf a targets rng iter cur t st
      = Inl (e1, st\<lparr>h_try_var := Some t, h_draws := Suc (h_draws st), store := ?h2\<rparr>)"
      by (simp add: st_try_body_def Let_def)
    with keep show ?thesis by auto
  next
    case new: (Inr new_std)
    show ?thesis
    proof (cases "score_less new_std cur")
      case True
      with new so co have "\<exists>st1. st_try_body slf a targets rng iter cur t st = Inr (Break, st1)
        \<and> store st1 = ?h2 \<and> ref_df_new st1 = Suc (length (store st))"
        by (simp add: st_try_body_def Let_def)
      with keep show ?thesis by auto
    next
      case False
      with new so co have "\<exists>st1. st_try_body slf a targets rng iter cur t st = Inr (Continue, st1)
        \<and> store st1 = ?h2 \<and> ref_df_new st1 = ref_df_new st"
        by (simp add: st_try_body_def Let_def)
      with keep show ?thesis by auto
    qed
  qed
qed

lemma st_try_loop_sim:
  assumes "a < length h" and "store_inv h st"
  shows "for_loop (try_body slf (h ! a) targets rng iter cur) ts (deref st)
    = map_state deref (for_loop (st_try_body slf a targets rng iter cur) ts st)"
proof (rule for_loop_sim[where I = "store_inv h"])
  fix x s assume "store_inv h s"
  from st_try_body_sim[OF assms(1) this]
  show "try_body slf (h ! a) targets rng iter cur x (deref s)
    = map_state deref (st_try_body slf a targets rng iter cur x s)" .
next
  fix x s c s' assume "store_inv h s" and "st_try_body slf a targets rng iter cur x s = Inr (c, s')"
  with st_try_body_store[of h s slf a targets rng iter cur x c s'] show "store_inv h s'" by blast
next
  show "store_inv h st" by (rule assms(2))
qed

lemma st_try_loop_store:
  assumes "store_inv h st"
  shows "(for_loop (st_try_body slf a targets rng iter cur) ts st = Inr (c, st') \<longrightarrow> store_inv h st')
    \<and> (for_loop (st_try_body slf a targets rng iter cur) ts st = Inl (e, st') \<longrightarrow> store_inv h st')"
proof -
  have step: "\<And>x s c s'. store_inv h s \<Longrightarrow> st_try_body slf a targets rng iter cur x s = Inr (c, s')
    \<Longrightarrow> store_inv h s'"
    using st_try_body_store by blast
  have fail: "\<And>x s e s'. store_inv h s \<Longrightarrow> st_try_body slf a targets rng iter cur x s = Inl (e, s')
    \<Longrightarrow> store_inv h s'"
    using st_try_body_store by blast
  show ?thesis
  proof (intro conjI impI)
    assume "for_loop (st_try_body slf a targets rng iter cur) ts st = Inr (c, st')"
    from for_loop_inv[where P = "store_inv h", OF step assms this] show "store_inv h st'" .
  next
    assume "for_loop (st_try_body slf a targets rng iter cur) ts st = Inl (e, st')"
    from for_loop_inv_exn[where P = "store_inv h", OF step fail assms this]
    show "store_inv h st'" .
  qed
qed

lemma deref_not_working: "deref (st\<lparr>h_not_working := []\<rparr>) = (deref st)\<lparr>not_working := []\<rparr>"
  by (simp add: deref_def)

lemma store_inv_not_working: "store_inv h (st\<lparr>h_not_working := []\<rparr>) = store_inv h st"
  by (simp add: store_inv_def)

lemma st_iter_body_sim:
  assumes "a < length h" and "store_inv h st"
  shows "iter_body slf (h ! a) targets rng iter (deref st)
    = map_state deref (st_iter_body slf a targets rng iter st)"
proof (cases "score_of (store st ! ref_df_new st) targets")
  case (Inl e)
  then show ?thesis by (simp add: iter_body_def st_iter_body_def deref_def)
next
  case cur: (Inr cur)
  then have vcur: "score_of (df_new (deref st)) targets = Inr cur" by (simp add: deref_def)
  show ?thesis
  proof (cases "py_range (number_of_tries slf)")
    case (Inl e)
    with cur vcur show ?thesis
      by (simp add: iter_body_def st_iter_body_def Let_def deref_not_working)
  next
    case ts: (Inr ts)
    have inv1: "store_inv h (st\<lparr>h_not_working := []\<rparr>)"
      using assms(2) by (simp add: store_inv_not_working)
    from st_try_loop_sim[OF assms(1) inv1, of slf targets rng iter cur ts]
    have loop: "for_loop (try_body slf (h ! a) targets rng iter cur) ts ((deref st)\<lparr>not_working := []\<rparr>)
      = map_state deref (for_loop (st_try_body slf a targets rng iter cur) ts (st\<lparr>h_not_working := []\<rparr>))"
      by (simp add: deref_not_working)
    show ?thesis
    proof (cases "for_loop (st_try_body slf a targets rng iter cur) ts (st\<lparr>h_not_working := []\<rparr>)")
      case (Inl p)
      obtain e st1 where "p = (e, st1)" by (cases p)
      with Inl loop cur vcur ts show ?thesis
        by (simp add: iter_body_def st_iter_body_def Let_def)
    next
      case (Inr p)
      obtain c2 st2 where p: "p = (c2, st2)" by (cases p)
      with Inr loop have vloop: "for_loop (try_body slf (h ! a) targets rng iter cur) ts
        ((deref st)\<lparr>not_working := []\<rparr>) = Inr (c2, deref st2)" by simp
      have tv: "try_var (deref st2) = h_try_var st2" by (simp add: deref_def)
      show ?thesis
      proof (cases "h_try_var st2")
        case None
        with Inr p vloop tv cur vcur ts show ?thesis
          by (simp add: iter_body_def st_iter_body_def Let_def)
      next
        case (Some t)
        with Inr p vloop tv cur vcur ts show ?thesis
          by (simp add: iter_body_def st_iter_body_def Let_def deref_def)
      qed
    qed
  qed
qed

lemma st_iter_body_store:
  assumes "store_inv h st"
  shows "(st_iter_body slf a targets rng iter st = Inr (c, st') \<longrightarrow> store_inv h st')
    \<and> (st_iter_body slf a targets rng iter st = Inl (e, st') \<longrightarrow> store_inv h st')"
proof (cases "score_of (store st ! ref_df_new st) targets")
  case (Inl e1)
  with assms show ?thesis by (auto simp: st_iter_body_def)
next
  case cur: (Inr cur)
  show ?thesis
  proof (cases "py_range (number_of_tries slf)")
    case (Inl e1)
    with cur assms show ?thesis
      by (auto simp: st_iter_body_def Let_def store_inv_not_working)
  next
    case ts: (Inr ts)
    have inv1: "store_inv h (st\<lparr>h_not_working := []\<rparr>)"
      using assms by (simp add: store_inv_not_working)
    show ?thesis
    proof (cases "for_loop (st_try_body slf a targets rng iter cur) ts (st\<lparr>h_not_working := []\<rparr>)")
      case (Inl p)
      obtain e1 st1 where p: "p = (e1, st1)" by (cases p)
      with Inl st_try_loop_store[OF inv1, of slf a targets rng iter cur ts Continue st1 e1]
      have "store_inv h st1" by simp
      with Inl p cur ts show ?thesis by (auto simp: st_iter_body_def Let_def)
    next
      case (Inr p)
      obtain c2 st2 where p: "p = (c2, st2)" by (cases p)
      with Inr st_try_loop_store[OF inv1, of slf a targets rng iter cur ts c2 st2 e]
      have "store_inv h st2" by simp
      then have "store_inv h (st2\<lparr>h_printed := h_printed st2 @ [NoImprovement (number_of_tries slf) iter]\<rparr>)"
        and "store_inv h (st2\<lparr>h_res_bad := h_res_bad st2 @ [h_not_working st2]\<rparr>)"
        by (simp_all add: store_inv_def)
      with Inr p cur ts \<open>store_inv h st2\<close> show ?thesis
        by (auto simp: st_iter_body_def Let_def split: option.splits if_splits)
    qed
  qed
qed

lemma st_iter_loop_sim:
  assumes "a < length h" and "store_inv h st"
  shows "for_loop (iter_body slf (h ! a) targets rng) iters (deref st)
    = map_state deref (for_loop (st_iter_body slf a targets rng) iters st)"
proof (rule for_loop_sim[where I = "store_inv h"])
  fix x s assume "store_inv h s"
  from st_iter_body_sim[OF assms(1) this]
  show "iter_body slf (h ! a) targets rng x (deref s)
    = map_state deref (st_iter_body slf a targets rng x s)" .
next
  fix x s c s' assume "store_inv h s" and "st_iter_body slf a targets rng x s = Inr (c, s')"
  with st_iter_body_store[of h s slf a targets rng x c s'] show "store_inv h s'" by blast
next
  show "store_inv h st" by (rule assms(2))
qed

lemma st_iter_loop_store:
  assumes "store_inv h st"
  shows "(for_loop (st_iter_body slf a targets rng) iters st = Inr (c, st') \<longrightarrow> store_inv h st')
    \<and> (for_loop (st_iter_body slf a targets rng) iters st = Inl (e, st') \<longrightarrow> store_inv h st')"
proof -
  have step: "\<And>x s c s'. store_inv h s \<Longrightarrow> st_iter_body slf a targets rng x s = Inr (c, s')
    \<Longrightarrow> store_inv h s'"
    using st_iter_body_store by blast
  have fail: "\<And>x s e s'. store_inv h s \<Longrightarrow> st_iter_body slf a targets rng x s = Inl (e, s')
    \<Longrightarrow> store_inv h s'"
    using st_iter_body_store by blast
  show ?thesis
  proof (intro conjI impI)
    assume "for_loop (st_iter_body slf a targets rng) iters st = Inr (c, st')"
    from for_loop_inv[where P = "store_inv h", OF step assms this] show "store_inv h st'" .
  next
    assume "for_loop (st_iter_body slf a targets rng) iters st = Inl (e, st')"
    from for_loop_inv_exn[where P = "store_inv h", OF step fail assms this]
    show "store_inv h st'" .
  qed
qed

text \<open>The state the loops of \<open>st_fit\<close> start from: two copies behind the caller's store.\<close>

lemma st_fit_start:
  assumes "a < length h"
  shows "deepcopy h a = (length h, h @ [h ! a])"
    and "deepcopy (h @ [h ! a]) a = (Suc (length h), h @ [h ! a, h ! a])"
  using assms by (simp_all add: deepcopy_def alloc_def nth_append)

lemma st_fit_start_inv:
  assumes "a < length h"
  shows "store_inv h \<lparr>store = h @ [h ! a, h ! a], ref_df_new = Suc (length h), h_res_std = [],
      h_res_bad = [], h_not_working = [], h_try_var = None, h_draws = 0, h_printed = []\<rparr>"
    and "deref \<lparr>store = h @ [h ! a, h ! a], ref_df_new = Suc (length h), h_res_std = [],
      h_res_bad = [], h_not_working = [], h_try_var = None, h_draws = 0, h_printed = []\<rparr>
      = init_locals (h ! a)"
  by (simp_all add: store_inv_def deref_def init_locals_def nth_append)

lemma st_fit_sim:
  assumes "a < length h"
  shows "vars (fit slf (h ! a) targets rng) = deref (h_vars (st_fit slf h a targets rng))
    \<and> store_inv h (h_vars (st_fit slf h a targets rng))
    \<and> outcome (fit slf (h ! a) targets rng) =
        (case h_outcome (st_fit slf h a targets rng) of
           Inl e \<Rightarrow> Inl e
         | Inr (RefFrame r) \<Rightarrow> Inr (Frame (store (h_vars (st_fit slf h a targets rng)) ! r))
         | Inr (RefFrameAndPlot r) \<Rightarrow>
             Inr (FrameAndPlot (store (h_vars (st_fit slf h a targets rng)) ! r)))
    \<and> (\<forall>r. h_outcome (st_fit slf h a targets rng) = Inr (RefFrame r)
            \<or> h_outcome (st_fit slf h a targets rng) = Inr (RefFrameAndPlot r)
          \<longrightarrow> r = ref_df_new (h_vars (st_fit slf h a targets rng)))"
proof -
  let ?st0 = "\<lparr>store = h @ [h ! a, h ! a], ref_df_new = Suc (length h), h_res_std = [],
      h_res_bad = [], h_not_working = [], h_try_var = None, h_draws = 0, h_printed = []\<rparr>"
  note start = st_fit_start[OF assms]
  note inv0 = st_fit_start_inv(1)[OF assms]
  note d0 = st_fit_start_inv(2)[OF assms]
  show ?thesis
  proof (cases "py_range (number_of_adds slf)")
    case (Inl e)
    then have "h_outcome (st_fit slf h a targets rng) = Inl e
      \<and> h_vars (st_fit slf h a targets rng) = ?st0"
      by (simp add: st_fit_def start)
    with fit_range_error[OF Inl, of "h ! a" targets rng] inv0 d0 show ?thesis by simp
  next
    case (Inr iters)
    from st_iter_loop_sim[OF assms inv0, of slf targets rng iters] d0
    have sim: "for_loop (iter_body slf (h ! a) targets rng) iters (init_locals (h ! a))
      = map_state deref (for_loop (st_iter_body slf a targets rng) iters ?st0)"
      by simp
    show ?thesis
    proof (cases "for_loop (st_iter_body slf a targets rng) iters ?st0")
      case (Inl p)
      obtain e st where p: "p = (e, st)" by (cases p)
      with Inl Inr have "h_outcome (st_fit slf h a targets rng) = Inl e
        \<and> h_vars (st_fit slf h a targets rng) = st"
        by (simp add: st_fit_def start)
      moreover from sim Inl p
      have "for_loop (iter_body slf (h ! a) targets rng) iters (init_locals (h ! a))
        = Inl (e, deref st)" by simp
      note fit_loop_exn[OF Inr this]
      moreover from st_iter_loop_store[OF inv0, of slf a targets rng iters Continue st e] Inl p
      have "store_inv h st" by simp
      ultimately show ?thesis by simp
    next
      case inr: (Inr p)
      obtain c st where p: "p = (c, st)" by (cases p)
      from sim inr p
      have "for_loop (iter_body slf (h ! a) targets rng) iters (init_locals (h ! a))
        = Inr (c, deref st)" by simp
      note v = fit_loop_done[OF Inr this]
      from st_iter_loop_store[OF inv0, of slf a targets rng iters c st TypeError] inr p
      have inv: "store_inv h st" by simp
      have d: "res_std (deref st) = h_res_std st" "res_bad (deref st) = h_res_bad st"
        "df_new (deref st) = store st ! ref_df_new st"
        by (simp_all add: deref_def)
      show ?thesis
      proof (cases "h_res_std st \<noteq> [] \<and> plot slf")
        case False
        with inr p Inr have "h_outcome (st_fit slf h a targets rng) = Inr (RefFrame (ref_df_new st))
          \<and> h_vars (st_fit slf h a targets rng) = st"
          by (auto simp: st_fit_def start)
        with v inv d False show ?thesis by auto
      next
        case True
        show ?thesis
        proof (cases "plot_all_tries (h_res_std st) (h_res_bad st)")
          case (Inl e)
          with True inr p Inr have "h_outcome (st_fit slf h a targets rng) = Inl e
            \<and> h_vars (st_fit slf h a targets rng) = st"
            by (auto simp: st_fit_def start)
          with v inv d True Inl show ?thesis by auto
        next
          case ok: (Inr u)
          with True inr p Inr
          have "h_outcome (st_fit slf h a targets rng) = Inr (RefFrameAndPlot (ref_df_new st))
            \<and> h_vars (st_fit slf h a targets rng) = st"
            by (auto simp: st_fit_def start)
          with v inv d True ok show ?thesis by auto
        qed
      qed
    qed
  qed
qed

subsection \<open>The sentinel bound\<close>

text \<open>
  A falsy \<open>number_of_adds\<close> or \<open>number_of_tries\<close> is stored as the float \<open>1e6\<close>, so the
  \<open>range\<close> over it raises: for \<open>number_of_adds\<close> before the first iteration, for
  \<open>number_of_tries\<close> in iteration 0 before the first draw.
\<close>

lemma init_falsy:
  "\<not> truthy adds \<Longrightarrow> number_of_adds (init adds tries q det plt) = PyFloat 1000000"
  "\<not> truthy tries \<Longrightarrow> number_of_tries (init adds tries q det plt) = PyFloat 1000000"
  "truthy adds \<Longrightarrow> number_of_adds (init adds tries q det plt) = adds"
  "truthy tries \<Longrightarrow> number_of_tries (init adds tries q det plt) = tries"
  by (simp_all add: init_def)

lemma falsy_adds_raises_TypeError:
  assumes "\<not> truthy adds"
  shows "outcome (fit (init adds tries q det plt) d targets rng) = Inl TypeError
    \<and> vars (fit (init adds tries q det plt) d targets rng) = init_locals d"
proof -
  have "py_range (number_of_adds (init adds tries q det plt)) = Inl TypeError"
    using init_falsy(1)[OF assms] by simp
  from fit_range_error[OF this] show ?thesis .
qed

lemma falsy_tries_raises_TypeError:
  assumes "\<not> truthy tries" and "adds = PyInt n" and "0 < n"
    and "set targets \<subseteq> set (columns d)"
  shows "outcome (fit (init adds tries q det plt) d targets rng) = Inl TypeError
    \<and> vars (fit (init adds tries q det plt) d targets rng) = init_locals d"
proof -
  let ?slf = "init adds tries q det plt"
  from assms(2,3) have "truthy adds" by simp
  from init_falsy(3)[OF this] assms(2)
  have r: "py_range (number_of_adds ?slf) = Inr [0..<nat n]" by simp
  have t: "py_range (number_of_tries ?slf) = Inl TypeError"
    using init_falsy(2)[OF assms(1)] by simp
  from score_of_defined[OF assms(4)] obtain cur where "score_of d targets = Inr cur" by blast
  with t have "iter_body ?slf d targets rng 0 (init_locals d) = Inl (TypeError, init_locals d)"
    by (simp add: iter_body_def init_locals_def Let_def)
  moreover from assms(3) have "[0..<nat n] = 0 # [Suc 0..<nat n]" by (simp add: upt_rec)
  ultimately have "for_loop (iter_body ?slf d targets rng) [0..<nat n] (init_locals d)
    = Inl (TypeError, init_locals d)" by simp
  from fit_loop_exn[OF r this] show ?thesis .
qed

section \<open>The claims\<close>

text \<open>Evaluation of a run on a concrete frame.\<close>

lemmas run_eval =
  fit_def init_def reset_def init_locals_def iter_body_def try_body_def sample_def
  concat_row_def score_of_def select_sum_def std_def plot_all_tries_def Let_def
  for_loop_upt power2_eq_square size_inv_def

text \<open>
  C6. The working frame has as many rows as the caller's frame plus one per accepted row
  (one score in \<open>res_std\<close> each): at the start, after every try, after every iteration,
  and in the state \<open>fit\<close> ends with, whatever its outcome. The frame \<open>fit\<close> returns has
  that size, and the number of accepted rows is at most \<open>number_of_adds\<close>.
\<close>

theorem working_set_size:
  "size_inv d (init_locals d)
   \<and> (size_inv d s \<and> try_body slf d targets rng iter cur t s = Inr (c, s') \<longrightarrow> size_inv d s')
   \<and> (size_inv d u \<and> iter_body slf d targets rng iter u = Inr (c', u') \<longrightarrow> size_inv d u')
   \<and> size_inv d (vars (fit slf d targets rng))
   \<and> (outcome (fit slf d targets rng) = Inr (Frame f)
        \<or> outcome (fit slf d targets rng) = Inr (FrameAndPlot f)
      \<longrightarrow> length (rows f) = length (rows d) + length (res_std (vars (fit slf d targets rng))))
   \<and> (number_of_adds slf = PyInt n \<and> 0 \<le> n
      \<longrightarrow> int (length (res_std (vars (fit slf d targets rng)))) \<le> n)"
proof (intro conjI impI)
  show "size_inv d (init_locals d)" by (rule size_inv_init)
next
  assume "size_inv d s \<and> try_body slf d targets rng iter cur t s = Inr (c, s')"
  then show "size_inv d s'" using size_inv_try_body by blast
next
  assume "size_inv d u \<and> iter_body slf d targets rng iter u = Inr (c', u')"
  then show "size_inv d u'" using size_inv_iter_body by blast
next
  show "size_inv d (vars (fit slf d targets rng))" by (rule size_inv_fit)
next
  assume ret: "outcome (fit slf d targets rng) = Inr (Frame f)
    \<or> outcome (fit slf d targets rng) = Inr (FrameAndPlot f)"
  then have "f = df_new (vars (fit slf d targets rng))"
    using fit_returns_df_new[of slf d targets rng "Frame f"]
      fit_returns_df_new[of slf d targets rng "FrameAndPlot f"]
    by auto
  with size_inv_fit[of d slf targets rng]
  show "length (rows f) = length (rows d) + length (res_std (vars (fit slf d targets rng)))"
    by (simp add: size_inv_def)
next
  assume "number_of_adds slf = PyInt n \<and> 0 \<le> n"
  then show "int (length (res_std (vars (fit slf d targets rng)))) \<le> n"
    using fit_accept_bound by blast
qed

theorem working_set_size_witness:
  "size_inv ex_frame (init_locals ex_frame)
   \<and> try_body (init (PyInt 5) (PyInt 3) True False False) ex_frame [''y1'', ''y2''] ex_rng 0
        (Val (sqrt 2)) 0 (init_locals ex_frame)
      = Inr (Continue, (init_locals ex_frame)\<lparr>try_var := Some 0, draws := 1,
               not_working := [(0, Val (sqrt (9 / 2)))]\<rparr>)
   \<and> size_inv ex_frame ((init_locals ex_frame)\<lparr>try_var := Some 0, draws := 1,
               not_working := [(0, Val (sqrt (9 / 2)))]\<rparr>)
   \<and> iter_body (init (PyInt 5) (PyInt 3) True False False) ex_frame [''y1'', ''y2''] ex_rng 0
        (init_locals ex_frame)
      = Inr (Continue, (init_locals ex_frame)\<lparr>df_new := concat_row ex_frame (3, [0, 1]),
               res_std := [Val (sqrt (1 / 2))], res_bad := [[(0, Val (sqrt (9 / 2)))]],
               not_working := [(0, Val (sqrt (9 / 2)))], try_var := Some 1, draws := 2\<rparr>)
   \<and> size_inv ex_frame ((init_locals ex_frame)\<lparr>df_new := concat_row ex_frame (3, [0, 1]),
               res_std := [Val (sqrt (1 / 2))], res_bad := [[(0, Val (sqrt (9 / 2)))]],
               not_working := [(0, Val (sqrt (9 / 2)))], try_var := Some 1, draws := 2\<rparr>)
   \<and> outcome (fit (init (PyInt 5) (PyInt 3) True False False) ex_frame [''y1'', ''y2''] ex_rng)
      = Inr (Frame (ex_frame\<lparr>rows := rows ex_frame @ [(3, [0, 1]), (3, [0, 1])]\<rparr>))
   \<and> length (rows (ex_frame\<lparr>rows := rows ex_frame @ [(3, [0, 1]), (3, [0, 1])]\<rparr>))
      = length (rows ex_frame)
        + length (res_std (vars (fit (init (PyInt 5) (PyInt 3) True False False) ex_frame
            [''y1'', ''y2''] ex_rng)))
   \<and> number_of_adds (init (PyInt 5) (PyInt 3) True False False) = PyInt 5
   \<and> int (length (res_std (vars (fit (init (PyInt 5) (PyInt 3) True False False) ex_frame
        [''y1'', ''y2''] ex_rng)))) \<le> 5"
proof -
  let ?slf = "init (PyInt 5) (PyInt 3) True False False"
  let ?s1 = "(init_locals ex_frame)\<lparr>try_var := Some 0, draws := 1,
               not_working := [(0, Val (sqrt (9 / 2)))]\<rparr>"
  let ?u1 = "(init_locals ex_frame)\<lparr>df_new := concat_row ex_frame (3, [0, 1]),
               res_std := [Val (sqrt (1 / 2))], res_bad := [[(0, Val (sqrt (9 / 2)))]],
               not_working := [(0, Val (sqrt (9 / 2)))], try_var := Some 1, draws := 2\<rparr>"
  let ?f = "ex_frame\<lparr>rows := rows ex_frame @ [(3, [0, 1]), (3, [0, 1])]\<rparr>"
  have t: "try_body ?slf ex_frame [''y1'', ''y2''] ex_rng 0 (Val (sqrt 2)) 0 (init_locals ex_frame)
    = Inr (Continue, ?s1)"
    by (simp add: run_eval ex_frame_def ex_rng_def)
  have i: "iter_body ?slf ex_frame [''y1'', ''y2''] ex_rng 0 (init_locals ex_frame)
    = Inr (Continue, ?u1)"
    by (simp add: run_eval ex_frame_def ex_rng_def)
  have o: "outcome (fit ?slf ex_frame [''y1'', ''y2''] ex_rng) = Inr (Frame ?f)"
    by (simp add: run_eval ex_frame_def ex_rng_def)
  have n: "number_of_adds ?slf = PyInt 5" by (simp add: init_def)
  from working_set_size[of ex_frame "init_locals ex_frame" ?slf "[''y1'', ''y2'']" ex_rng 0
      "Val (sqrt 2)" 0 Continue ?s1 "init_locals ex_frame" Continue ?u1 ?f 5]
    t i o n
  show ?thesis by simp
qed


text \<open>
  C1. A candidate accepted on the last try does not let the run go on. On \<open>ex_frame\<close>
  (label sums 3 and 1) with five iterations and two tries, the first draw is rejected and
  the second, the last try of iteration 0, is accepted; the test \<open>try_ + 1 ==
  number_of_tries\<close> then holds, the line "No improvement" is printed and the outer loop is
  left with one row added, although one more copy of row 3 would bring the score to 0.
\<close>

theorem accept_on_last_try_ends_run:
  "vars (fit (init (PyInt 5) (PyInt 2) True False False) ex_frame [''y1'', ''y2''] ex_rng)
     = \<lparr>df_new = ex_frame\<lparr>rows := rows ex_frame @ [(3, [0, 1])]\<rparr>,
        res_std = [Val (sqrt (1 / 2))], res_bad = [],
        not_working = [(0, Val (sqrt (9 / 2)))],
        try_var = Some 1, draws = 2, printed = [NoImprovement (PyInt 2) 0]\<rparr>
   \<and> score_of (ex_frame\<lparr>rows := rows ex_frame @ [(3, [0, 1]), (3, [0, 1])]\<rparr>) [''y1'', ''y2'']
     = Inr (Val 0)"
  by (simp add: run_eval ex_frame_def ex_rng_def)

text \<open>
  C2. The constructor replaces a falsy bound by \<open>1e6\<close>, which is a float, and \<open>range\<close>
  takes integers only. With \<open>number_of_adds = 0\<close> the stored bound is \<open>1e6\<close> and \<open>fit\<close>
  ends with a TypeError at the range of the outer loop: nothing is returned, no iteration
  has started, and \<open>self.df_new\<close> is still unset.
\<close>

theorem zero_adds_raises_TypeError:
  "number_of_adds (init (PyInt 0) (PyInt 100) True False False) = PyFloat 1000000
   \<and> outcome (fit (init (PyInt 0) (PyInt 100) True False False) ex_frame [''y1'', ''y2''] ex_rng)
     = Inl TypeError
   \<and> vars (fit (init (PyInt 0) (PyInt 100) True False False) ex_frame [''y1'', ''y2''] ex_rng)
     = init_locals ex_frame
   \<and> self_df_new (obj (fit (init (PyInt 0) (PyInt 100) True False False) ex_frame
       [''y1'', ''y2''] ex_rng)) = None"
  by (simp add: run_eval ex_frame_def ex_rng_def)

text \<open>
  C4, as stated, fails: an empty \<open>target_list\<close> raises nothing. The scores are not a
  number, both tries of iteration 0 are made and rejected, and the frame is returned.
\<close>

theorem empty_target_list_no_error:
  "outcome (fit (init (PyInt 5) (PyInt 2) True False False) ex_frame [] ex_rng)
     = Inr (Frame ex_frame)
   \<and> draws (vars (fit (init (PyInt 5) (PyInt 2) True False False) ex_frame [] ex_rng)) = 2"
  by (simp add: run_eval ex_frame_def ex_rng_def)

text \<open>
  C4, amended. When \<open>target_list\<close> names a column the frame does not have and
  \<open>number_of_adds\<close> is a positive integer, \<open>fit\<close> ends with a KeyError at the first score
  evaluation of iteration 0: no row has been drawn and nothing has been recorded. An empty
  \<open>target_list\<close> never gives a KeyError.
\<close>

theorem absent_target_raises_KeyError:
  "(\<not> set targets \<subseteq> set (columns d) \<and> number_of_adds slf = PyInt n \<and> 0 < n
      \<longrightarrow> outcome (fit slf d targets rng) = Inl KeyError
        \<and> vars (fit slf d targets rng) = init_locals d)
   \<and> outcome (fit slf d [] rng) \<noteq> Inl KeyError"
proof (intro conjI impI)
  assume h: "\<not> set targets \<subseteq> set (columns d) \<and> number_of_adds slf = PyInt n \<and> 0 < n"
  then have r: "py_range (number_of_adds slf) = Inr [0..<nat n]" by simp
  from h have "[0..<nat n] = 0 # [Suc 0..<nat n]" by (simp add: upt_rec)
  moreover from h have "iter_body slf d targets rng 0 (init_locals d)
    = Inl (KeyError, init_locals d)"
    by (simp add: iter_body_def init_locals_def score_of_KeyError)
  ultimately have l: "for_loop (iter_body slf d targets rng) [0..<nat n] (init_locals d)
    = Inl (KeyError, init_locals d)"
    by simp
  from fit_loop_exn[OF r l]
  show "outcome (fit slf d targets rng) = Inl KeyError"
    and "vars (fit slf d targets rng) = init_locals d"
    by simp_all
next
  show "outcome (fit slf d [] rng) \<noteq> Inl KeyError" by (rule fit_Nil_no_KeyError)
qed

theorem absent_target_raises_KeyError_witness:
  "\<not> set [''y1'', ''zz''] \<subseteq> set (columns ex_frame)
   \<and> number_of_adds (init (PyInt 5) (PyInt 2) True False False) = PyInt 5 \<and> (0::int) < 5
   \<and> outcome (fit (init (PyInt 5) (PyInt 2) True False False) ex_frame [''y1'', ''zz''] ex_rng)
       = Inl KeyError
   \<and> vars (fit (init (PyInt 5) (PyInt 2) True False False) ex_frame [''y1'', ''zz''] ex_rng)
       = init_locals ex_frame
   \<and> outcome (fit (init (PyInt 5) (PyInt 2) True False False) ex_frame [] ex_rng)
       \<noteq> Inl KeyError"
proof -
  have c: "\<not> set [''y1'', ''zz''] \<subseteq> set (columns ex_frame)" by (simp add: ex_frame_def)
  have n: "number_of_adds (init (PyInt 5) (PyInt 2) True False False) = PyInt 5"
    by (simp add: init_def)
  from absent_target_raises_KeyError[of "[''y1'', ''zz'']" ex_frame
      "init (PyInt 5) (PyInt 2) True False False" 5 ex_rng] c n
  show ?thesis by simp
qed

text \<open>
  C8, as stated, fails: with \<open>plot\<close> off, \<open>fit\<close> returns the frame alone, not a pair, also
  after two rows were accepted.
\<close>

theorem fit_returns_frame_alone:
  "outcome (fit (init (PyInt 5) (PyInt 3) True False False) ex_frame [''y1'', ''y2''] ex_rng)
     = Inr (Frame (ex_frame\<lparr>rows := rows ex_frame @ [(3, [0, 1]), (3, [0, 1])]\<rparr>))"
  by (simp add: run_eval ex_frame_def ex_rng_def)

text \<open>
  C8, amended. On a frame with rows, target names that are columns and a positive integer
  \<open>number_of_tries\<close>, the loops of \<open>fit\<close> raise nothing: \<open>fit\<close> returns \<open>df_new\<close> alone when
  no row was accepted or \<open>plot\<close> is off, and otherwise what \<open>plot_all_tries\<close> allows, the
  pair of \<open>df_new\<close> and the plotting module. Whenever \<open>fit\<close> returns, the value is one of
  these two, and the accepted scores and the rejected tries are not in it: they are the
  attributes \<open>res_std\<close> and \<open>res_bad\<close> of the object.
\<close>

theorem fit_return_value:
  "(rows d \<noteq> [] \<and> set targets \<subseteq> set (columns d)
      \<and> number_of_adds slf = PyInt n \<and> number_of_tries slf = PyInt m \<and> 0 < m
      \<longrightarrow> outcome (fit slf d targets rng) =
          (if res_std (vars (fit slf d targets rng)) \<noteq> [] \<and> plot slf
           then (case plot_all_tries (res_std (vars (fit slf d targets rng)))
                        (res_bad (vars (fit slf d targets rng))) of
                   Inl e \<Rightarrow> Inl e
                 | Inr u \<Rightarrow> Inr (FrameAndPlot (df_new (vars (fit slf d targets rng)))))
           else Inr (Frame (df_new (vars (fit slf d targets rng))))))
   \<and> (outcome (fit slf d targets rng) = Inr v
      \<longrightarrow> (v = Frame (df_new (vars (fit slf d targets rng)))
            \<and> (res_std (vars (fit slf d targets rng)) = [] \<or> \<not> plot slf)
          \<or> v = FrameAndPlot (df_new (vars (fit slf d targets rng)))
            \<and> res_std (vars (fit slf d targets rng)) \<noteq> [] \<and> plot slf)
        \<and> self_df_new (obj (fit slf d targets rng)) = Some (df_new (vars (fit slf d targets rng)))
        \<and> self_res_std (obj (fit slf d targets rng)) = Some (res_std (vars (fit slf d targets rng)))
        \<and> self_res_bad (obj (fit slf d targets rng)) = Some (res_bad (vars (fit slf d targets rng))))"
proof (rule conjI; rule impI)
  assume h: "rows d \<noteq> [] \<and> set targets \<subseteq> set (columns d)
      \<and> number_of_adds slf = PyInt n \<and> number_of_tries slf = PyInt m \<and> 0 < m"
  then have r: "py_range (number_of_adds slf) = Inr [0..<nat n]" by simp
  from h iter_loop_total[of d targets slf m rng "[0..<nat n]"]
  obtain c s where l: "for_loop (iter_body slf d targets rng) [0..<nat n] (init_locals d) = Inr (c, s)"
    by blast
  from fit_loop_done[OF r l] have v: "vars (fit slf d targets rng) = s"
    and o: "outcome (fit slf d targets rng) =
        (if res_std s \<noteq> [] \<and> plot slf
         then (case plot_all_tries (res_std s) (res_bad s) of
                 Inl e \<Rightarrow> Inl e
               | Inr u \<Rightarrow> Inr (FrameAndPlot (df_new s)))
         else Inr (Frame (df_new s)))"
    by simp_all
  show "outcome (fit slf d targets rng) =
          (if res_std (vars (fit slf d targets rng)) \<noteq> [] \<and> plot slf
           then (case plot_all_tries (res_std (vars (fit slf d targets rng)))
                        (res_bad (vars (fit slf d targets rng))) of
                   Inl e \<Rightarrow> Inl e
                 | Inr u \<Rightarrow> Inr (FrameAndPlot (df_new (vars (fit slf d targets rng)))))
           else Inr (Frame (df_new (vars (fit slf d targets rng)))))"
    unfolding v by (rule o)
next
  assume "outcome (fit slf d targets rng) = Inr v"
  from fit_returns_df_new[OF this]
  show "(v = Frame (df_new (vars (fit slf d targets rng)))
            \<and> (res_std (vars (fit slf d targets rng)) = [] \<or> \<not> plot slf)
          \<or> v = FrameAndPlot (df_new (vars (fit slf d targets rng)))
            \<and> res_std (vars (fit slf d targets rng)) \<noteq> [] \<and> plot slf)
        \<and> self_df_new (obj (fit slf d targets rng)) = Some (df_new (vars (fit slf d targets rng)))
        \<and> self_res_std (obj (fit slf d targets rng)) = Some (res_std (vars (fit slf d targets rng)))
        \<and> self_res_bad (obj (fit slf d targets rng)) = Some (res_bad (vars (fit slf d targets rng)))"
    by blast
qed

theorem fit_return_value_witness:
  "rows ex_frame \<noteq> [] \<and> set [''y1'', ''y2''] \<subseteq> set (columns ex_frame)
   \<and> number_of_adds (init (PyInt 5) (PyInt 3) True False True) = PyInt 5
   \<and> number_of_tries (init (PyInt 5) (PyInt 3) True False True) = PyInt 3 \<and> (0::int) < 3
   \<and> outcome (fit (init (PyInt 5) (PyInt 3) True False True) ex_frame [''y1'', ''y2''] ex_rng)
      = Inr (FrameAndPlot (ex_frame\<lparr>rows := rows ex_frame @ [(3, [0, 1]), (3, [0, 1])]\<rparr>))
   \<and> self_res_std (obj (fit (init (PyInt 5) (PyInt 3) True False True) ex_frame
        [''y1'', ''y2''] ex_rng)) = Some [Val (sqrt (1 / 2)), Val 0]
   \<and> self_res_bad (obj (fit (init (PyInt 5) (PyInt 3) True False True) ex_frame
        [''y1'', ''y2''] ex_rng)) = Some [[(0, Val (sqrt (9 / 2)))], []]"
proof -
  let ?slf = "init (PyInt 5) (PyInt 3) True False True"
  let ?f = "ex_frame\<lparr>rows := rows ex_frame @ [(3, [0, 1]), (3, [0, 1])]\<rparr>"
  have v: "vars (fit ?slf ex_frame [''y1'', ''y2''] ex_rng)
     = \<lparr>df_new = ?f, res_std = [Val (sqrt (1 / 2)), Val 0],
        res_bad = [[(0, Val (sqrt (9 / 2)))], []],
        not_working = [(3, Val (sqrt (1 / 2))), (3, Val (sqrt (1 / 2))), (3, Val (sqrt (1 / 2)))],
        try_var = Some 2, draws = 6, printed = [NoImprovement (PyInt 3) 2]\<rparr>"
    by (simp add: run_eval ex_frame_def ex_rng_def)
  have pre: "rows ex_frame \<noteq> [] \<and> set [''y1'', ''y2''] \<subseteq> set (columns ex_frame)
    \<and> number_of_adds ?slf = PyInt 5 \<and> number_of_tries ?slf = PyInt 3 \<and> (0::int) < 3"
    by (simp add: ex_frame_def init_def)
  have p: "plot ?slf" by (simp add: init_def)
  from fit_return_value[of ex_frame "[''y1'', ''y2'']" ?slf 5 3 ex_rng "FrameAndPlot ?f"] pre p v
  show ?thesis by (simp add: plot_all_tries_def)
qed


text \<open>
  C3. Let the iterations before \<open>i\<close> have run and let the run go on, and let iteration
  \<open>i\<close>, within the bound, use up its try budget with no candidate accepted (its try loop
  ends without \<open>break\<close>). Then the run ends there: the state \<open>fit\<close> ends with is the state
  at the end of that try loop, with the line "No improvement" added. It holds exactly
  \<open>i\<close> accepted rows, the working frame is the one iteration \<open>i\<close> started with, and the
  last draws were the tries of iteration \<open>i\<close>.
\<close>

theorem stall_terminates_run:
  "number_of_adds slf = PyInt n \<and> int i < n \<and> number_of_tries slf = PyInt m \<and> 0 < m
   \<and> for_loop (iter_body slf d targets rng) [0..<i] (init_locals d) = Inr (Continue, s)
   \<and> score_of (df_new s) targets = Inr cur
   \<and> for_loop (try_body slf d targets rng i cur) [0..<nat m] (s\<lparr>not_working := []\<rparr>)
       = Inr (Continue, s2)
   \<longrightarrow> vars (fit slf d targets rng) = s2\<lparr>printed := printed s2 @ [NoImprovement (PyInt m) i]\<rparr>
     \<and> length (res_std (vars (fit slf d targets rng))) = i
     \<and> df_new (vars (fit slf d targets rng)) = df_new s
     \<and> length (rows (df_new (vars (fit slf d targets rng)))) = length (rows d) + i
     \<and> draws (vars (fit slf d targets rng)) = draws s + nat m"
proof
  assume h: "number_of_adds slf = PyInt n \<and> int i < n \<and> number_of_tries slf = PyInt m \<and> 0 < m
   \<and> for_loop (iter_body slf d targets rng) [0..<i] (init_locals d) = Inr (Continue, s)
   \<and> score_of (df_new s) targets = Inr cur
   \<and> for_loop (try_body slf d targets rng i cur) [0..<nat m] (s\<lparr>not_working := []\<rparr>)
       = Inr (Continue, s2)"
  let ?fin = "s2\<lparr>printed := printed s2 @ [NoImprovement (PyInt m) i]\<rparr>"
  from h have r: "py_range (number_of_adds slf) = Inr [0..<nat n]" by simp
  from h have "int i < n" by blast
  then have lt: "i < nat n" by linarith
  then have split: "[0..<nat n] = [0..<i] @ i # [Suc i..<nat n]"
    by (rule upt_split)
  from h have reach: "for_loop (iter_body slf d targets rng) [0..<i] (init_locals d)
    = Inr (Continue, s)" by blast
  from h have stall: "iter_body slf d targets rng i s = Inr (Break, ?fin)"
    using iter_body_stall[of s targets cur slf m d rng i s2] by blast
  have "for_loop (iter_body slf d targets rng) [0..<nat n] (init_locals d)
    = for_loop (iter_body slf d targets rng) (i # [Suc i..<nat n]) s"
    unfolding split by (rule for_loop_append_Continue[OF reach])
  with stall have l: "for_loop (iter_body slf d targets rng) [0..<nat n] (init_locals d)
    = Inr (Break, ?fin)" by simp
  from fit_loop_done[OF r l] have v: "vars (fit slf d targets rng) = ?fin" by simp
  from h iter_loop_Continue_count[of slf m d targets rng "[0..<i]" "init_locals d" s]
  have cnt: "length (res_std s) = i" by (simp add: init_locals_def)
  from h try_loop_Continue[of slf d targets rng i cur "[0..<nat m]" "s\<lparr>not_working := []\<rparr>" s2]
  have same: "df_new s2 = df_new s \<and> res_std s2 = res_std s \<and> draws s2 = draws s + nat m"
    by simp
  have "size_inv d s"
    using size_inv_iter_loop[OF size_inv_init, where d = d and slf = slf and targets = targets
        and rng = rng and iters = "[0..<i]" and c = Continue and s' = s] reach
    by blast
  with cnt have sz: "length (rows (df_new s)) = length (rows d) + i" by (simp add: size_inv_def)
  from v same cnt sz
  show "vars (fit slf d targets rng) = ?fin
     \<and> length (res_std (vars (fit slf d targets rng))) = i
     \<and> df_new (vars (fit slf d targets rng)) = df_new s
     \<and> length (rows (df_new (vars (fit slf d targets rng)))) = length (rows d) + i
     \<and> draws (vars (fit slf d targets rng)) = draws s + nat m"
    by simp
qed

theorem stall_terminates_run_witness:
  "number_of_adds (init (PyInt 5) (PyInt 3) True False False) = PyInt 5 \<and> int 2 < 5
   \<and> number_of_tries (init (PyInt 5) (PyInt 3) True False False) = PyInt 3 \<and> (0::int) < 3
   \<and> for_loop (iter_body (init (PyInt 5) (PyInt 3) True False False) ex_frame
         [''y1'', ''y2''] ex_rng) [0..<2] (init_locals ex_frame)
       = Inr (Continue,
           \<lparr>df_new = ex_frame\<lparr>rows := rows ex_frame @ [(3, [0, 1]), (3, [0, 1])]\<rparr>,
            res_std = [Val (sqrt (1 / 2)), Val 0],
            res_bad = [[(0, Val (sqrt (9 / 2)))], []],
            not_working = [], try_var = Some 0, draws = 3, printed = []\<rparr>)
   \<and> vars (fit (init (PyInt 5) (PyInt 3) True False False) ex_frame [''y1'', ''y2''] ex_rng)
       = \<lparr>df_new = ex_frame\<lparr>rows := rows ex_frame @ [(3, [0, 1]), (3, [0, 1])]\<rparr>,
          res_std = [Val (sqrt (1 / 2)), Val 0],
          res_bad = [[(0, Val (sqrt (9 / 2)))], []],
          not_working = [(3, Val (sqrt (1 / 2))), (3, Val (sqrt (1 / 2))), (3, Val (sqrt (1 / 2)))],
          try_var = Some 2, draws = 6, printed = [NoImprovement (PyInt 3) 2]\<rparr>
   \<and> length (res_std (vars (fit (init (PyInt 5) (PyInt 3) True False False) ex_frame
         [''y1'', ''y2''] ex_rng))) = 2"
proof -
  let ?slf = "init (PyInt 5) (PyInt 3) True False False"
  let ?f = "ex_frame\<lparr>rows := rows ex_frame @ [(3, [0, 1]), (3, [0, 1])]\<rparr>"
  let ?s = "\<lparr>df_new = ?f, res_std = [Val (sqrt (1 / 2)), Val 0],
            res_bad = [[(0, Val (sqrt (9 / 2)))], []],
            not_working = [], try_var = Some 0, draws = 3, printed = []\<rparr>"
  let ?s2 = "\<lparr>df_new = ?f, res_std = [Val (sqrt (1 / 2)), Val 0],
            res_bad = [[(0, Val (sqrt (9 / 2)))], []],
            not_working = [(3, Val (sqrt (1 / 2))), (3, Val (sqrt (1 / 2))), (3, Val (sqrt (1 / 2)))],
            try_var = Some 2, draws = 6, printed = []\<rparr>"
  have cfg: "number_of_adds ?slf = PyInt 5 \<and> int 2 < 5 \<and> number_of_tries ?slf = PyInt 3
    \<and> (0::int) < 3"
    by (simp add: init_def)
  have reach: "for_loop (iter_body ?slf ex_frame [''y1'', ''y2''] ex_rng) [0..<2]
    (init_locals ex_frame) = Inr (Continue, ?s)"
    by (simp add: run_eval ex_frame_def ex_rng_def)
  have cur: "score_of (df_new ?s) [''y1'', ''y2''] = Inr (Val 0)"
    by (simp add: run_eval ex_frame_def)
  have stall: "for_loop (try_body ?slf ex_frame [''y1'', ''y2''] ex_rng 2 (Val 0)) [0..<nat 3]
    (?s\<lparr>not_working := []\<rparr>) = Inr (Continue, ?s2)"
    by (simp add: run_eval ex_frame_def ex_rng_def)
  from stall_terminates_run[of ?slf 5 2 3 ex_frame "[''y1'', ''y2'']" ex_rng ?s "Val 0" ?s2]
    cfg reach cur stall
  show ?thesis by simp
qed

text \<open>
  C5. A try accepts its candidate exactly when the candidate's score is strictly below
  the score the iteration started with; no score is below itself, so a tie is rejected.
  An iteration that accepts a row leaves a working frame whose score is strictly below
  the one it started with, and the accepted scores of a run decrease strictly.
\<close>

theorem acceptance_is_strict:
  "(try_body slf d targets rng iter cur t s = Inr (c, s')
      \<longrightarrow> (\<exists>random_row new_std.
             sample d (rng (draws s)) = Inr random_row
           \<and> score_of (concat_row (df_new s) random_row) targets = Inr new_std
           \<and> (if score_less new_std cur
              then c = Break \<and> df_new s' = concat_row (df_new s) random_row
                 \<and> res_std s' = res_std s @ [new_std]
              else c = Continue \<and> df_new s' = df_new s \<and> res_std s' = res_std s
                 \<and> not_working s' = not_working s @ [(fst random_row, new_std)])))
   \<and> \<not> score_less sc sc
   \<and> (iter_body slf d targets rng iter u = Inr (c', u') \<and> res_std u' \<noteq> res_std u
      \<longrightarrow> (\<exists>before after.
             score_of (df_new u) targets = Inr before
           \<and> score_of (df_new u') targets = Inr after
           \<and> score_less after before
           \<and> res_std u' = res_std u @ [after]))
   \<and> sorted_wrt (\<lambda>a b. score_less b a) (res_std (vars (fit slf d targets rng)))"
proof (intro conjI)
  show "try_body slf d targets rng iter cur t s = Inr (c, s')
      \<longrightarrow> (\<exists>random_row new_std.
             sample d (rng (draws s)) = Inr random_row
           \<and> score_of (concat_row (df_new s) random_row) targets = Inr new_std
           \<and> (if score_less new_std cur
              then c = Break \<and> df_new s' = concat_row (df_new s) random_row
                 \<and> res_std s' = res_std s @ [new_std]
              else c = Continue \<and> df_new s' = df_new s \<and> res_std s' = res_std s
                 \<and> not_working s' = not_working s @ [(fst random_row, new_std)]))"
  proof
    assume b: "try_body slf d targets rng iter cur t s = Inr (c, s')"
    show "\<exists>random_row new_std.
             sample d (rng (draws s)) = Inr random_row
           \<and> score_of (concat_row (df_new s) random_row) targets = Inr new_std
           \<and> (if score_less new_std cur
              then c = Break \<and> df_new s' = concat_row (df_new s) random_row
                 \<and> res_std s' = res_std s @ [new_std]
              else c = Continue \<and> df_new s' = df_new s \<and> res_std s' = res_std s
                 \<and> not_working s' = not_working s @ [(fst random_row, new_std)])"
    proof (cases c)
      case Continue
      with b try_body_Continue[of slf d targets rng iter cur t s s'] show ?thesis by auto
    next
      case Break
      with b try_body_Break[of slf d targets rng iter cur t s s'] show ?thesis by auto
    qed
  qed
next
  show "\<not> score_less sc sc" by (rule score_less_irrefl)
next
  show "iter_body slf d targets rng iter u = Inr (c', u') \<and> res_std u' \<noteq> res_std u
      \<longrightarrow> (\<exists>before after.
             score_of (df_new u) targets = Inr before
           \<and> score_of (df_new u') targets = Inr after
           \<and> score_less after before
           \<and> res_std u' = res_std u @ [after])"
  proof
    assume h: "iter_body slf d targets rng iter u = Inr (c', u') \<and> res_std u' \<noteq> res_std u"
    then have "iter_body slf d targets rng iter u = Inr (c', u')" by blast
    from iter_body_effect[OF this] h
    show "\<exists>before after.
             score_of (df_new u) targets = Inr before
           \<and> score_of (df_new u') targets = Inr after
           \<and> score_less after before
           \<and> res_std u' = res_std u @ [after]"
      by auto
  qed
next
  from trace_inv_fit[of targets slf d rng]
  show "sorted_wrt (\<lambda>a b. score_less b a) (res_std (vars (fit slf d targets rng)))"
    by (simp add: trace_inv_def)
qed

theorem acceptance_is_strict_witness:
  "try_body (init (PyInt 5) (PyInt 3) True False False) ex_frame [''y1'', ''y2''] ex_rng 0
      (Val (sqrt 2)) 1
      ((init_locals ex_frame)\<lparr>try_var := Some 0, draws := 1,
          not_working := [(0, Val (sqrt (9 / 2)))]\<rparr>)
     = Inr (Break, (init_locals ex_frame)\<lparr>try_var := Some 1, draws := 2,
          not_working := [(0, Val (sqrt (9 / 2)))],
          df_new := concat_row ex_frame (3, [0, 1]), res_std := [Val (sqrt (1 / 2))]\<rparr>)
   \<and> score_less (Val (sqrt (1 / 2))) (Val (sqrt 2))
   \<and> \<not> score_less (Val (sqrt 2)) (Val (sqrt 2))
   \<and> iter_body (init (PyInt 5) (PyInt 3) True False False) ex_frame [''y1'', ''y2''] ex_rng 0
        (init_locals ex_frame)
      = Inr (Continue, (init_locals ex_frame)\<lparr>df_new := concat_row ex_frame (3, [0, 1]),
               res_std := [Val (sqrt (1 / 2))], res_bad := [[(0, Val (sqrt (9 / 2)))]],
               not_working := [(0, Val (sqrt (9 / 2)))], try_var := Some 1, draws := 2\<rparr>)
   \<and> score_of ex_frame [''y1'', ''y2''] = Inr (Val (sqrt 2))
   \<and> score_of (concat_row ex_frame (3, [0, 1])) [''y1'', ''y2''] = Inr (Val (sqrt (1 / 2)))
   \<and> sorted_wrt (\<lambda>a b. score_less b a)
        (res_std (vars (fit (init (PyInt 5) (PyInt 3) True False False) ex_frame
           [''y1'', ''y2''] ex_rng)))
   \<and> res_std (vars (fit (init (PyInt 5) (PyInt 3) True False False) ex_frame
           [''y1'', ''y2''] ex_rng)) = [Val (sqrt (1 / 2)), Val 0]"
proof -
  let ?slf = "init (PyInt 5) (PyInt 3) True False False"
  let ?s = "(init_locals ex_frame)\<lparr>try_var := Some 0, draws := 1,
          not_working := [(0, Val (sqrt (9 / 2)))]\<rparr>"
  let ?s' = "(init_locals ex_frame)\<lparr>try_var := Some 1, draws := 2,
          not_working := [(0, Val (sqrt (9 / 2)))],
          df_new := concat_row ex_frame (3, [0, 1]), res_std := [Val (sqrt (1 / 2))]\<rparr>"
  let ?u' = "(init_locals ex_frame)\<lparr>df_new := concat_row ex_frame (3, [0, 1]),
               res_std := [Val (sqrt (1 / 2))], res_bad := [[(0, Val (sqrt (9 / 2)))]],
               not_working := [(0, Val (sqrt (9 / 2)))], try_var := Some 1, draws := 2\<rparr>"
  have t: "try_body ?slf ex_frame [''y1'', ''y2''] ex_rng 0 (Val (sqrt 2)) 1 ?s = Inr (Break, ?s')"
    by (simp add: run_eval ex_frame_def ex_rng_def)
  have i: "iter_body ?slf ex_frame [''y1'', ''y2''] ex_rng 0 (init_locals ex_frame)
    = Inr (Continue, ?u')"
    by (simp add: run_eval ex_frame_def ex_rng_def)
  have sc: "score_of ex_frame [''y1'', ''y2''] = Inr (Val (sqrt 2))
    \<and> score_of (concat_row ex_frame (3, [0, 1])) [''y1'', ''y2''] = Inr (Val (sqrt (1 / 2)))"
    by (simp add: run_eval ex_frame_def)
  have r: "res_std (vars (fit ?slf ex_frame [''y1'', ''y2''] ex_rng)) = [Val (sqrt (1 / 2)), Val 0]"
    by (simp add: run_eval ex_frame_def ex_rng_def)
  from acceptance_is_strict[of ?slf ex_frame "[''y1'', ''y2'']" ex_rng 0 "Val (sqrt 2)" 1 ?s
      Break ?s' "Val (sqrt 2)" "init_locals ex_frame" Continue ?u']
  have "\<not> score_less (Val (sqrt 2)) (Val (sqrt 2))
    \<and> sorted_wrt (\<lambda>a b. score_less b a) (res_std (vars (fit ?slf ex_frame [''y1'', ''y2''] ex_rng)))"
    by blast
  with t i sc r show ?thesis by simp
qed


text \<open>
  C9. With fewer than two label columns (all of them columns of the frame) the score is
  not a number instead of an error, and not-a-number is neither below nor above any
  score. On a frame with rows, with positive integer bounds, every try of iteration 0 is
  therefore rejected: the run makes its \<open>number_of_tries\<close> draws, records a not-a-number
  score for each, prints "No improvement" for iteration 0 and returns the frame as it was.
\<close>

theorem undefined_score_stalls_at_iteration_0:
  "length targets < 2 \<and> set targets \<subseteq> set (columns d) \<and> rows d \<noteq> []
   \<and> number_of_adds slf = PyInt n \<and> 0 < n \<and> number_of_tries slf = PyInt m \<and> 0 < m
   \<longrightarrow> score_of d targets = Inr NaN
     \<and> score_of (concat_row d r) targets = Inr NaN
     \<and> \<not> score_less x NaN \<and> \<not> score_less NaN x
     \<and> outcome (fit slf d targets rng) = Inr (Frame d)
     \<and> df_new (vars (fit slf d targets rng)) = d
     \<and> res_std (vars (fit slf d targets rng)) = []
     \<and> res_bad (vars (fit slf d targets rng)) = []
     \<and> length (not_working (vars (fit slf d targets rng))) = nat m
     \<and> (\<forall>p \<in> set (not_working (vars (fit slf d targets rng))). snd p = NaN)
     \<and> draws (vars (fit slf d targets rng)) = nat m
     \<and> printed (vars (fit slf d targets rng)) = [NoImprovement (PyInt m) 0]"
proof
  assume h: "length targets < 2 \<and> set targets \<subseteq> set (columns d) \<and> rows d \<noteq> []
   \<and> number_of_adds slf = PyInt n \<and> 0 < n \<and> number_of_tries slf = PyInt m \<and> 0 < m"
  let ?s0 = "(init_locals d)\<lparr>not_working := []\<rparr>"
  from h have cur: "score_of (df_new (init_locals d)) targets = Inr NaN"
    by (simp add: score_of_short init_locals_def)
  from h have cand: "score_of (concat_row d r) targets = Inr NaN"
    by (simp add: score_of_short columns_concat_row)
  from h try_loop_NaN[of d targets ?s0 slf rng 0 "[0..<nat m]"]
  obtain s2 where
    loop: "for_loop (try_body slf d targets rng 0 NaN) [0..<nat m] ?s0 = Inr (Continue, s2)"
    and nw: "\<forall>p \<in> set (not_working s2). snd p = NaN"
    by (auto simp: init_locals_def)
  from try_loop_Continue[OF loop]
  have s2: "df_new s2 = d \<and> res_std s2 = [] \<and> res_bad s2 = [] \<and> printed s2 = []
    \<and> draws s2 = nat m \<and> length (not_working s2) = nat m"
    by (simp add: init_locals_def)
  let ?fin = "s2\<lparr>printed := printed s2 @ [NoImprovement (PyInt m) 0]\<rparr>"
  from h have "number_of_tries slf = PyInt m" and "0 < m" by blast+
  from iter_body_stall[OF cur this loop]
  have it: "iter_body slf d targets rng 0 (init_locals d) = Inr (Break, ?fin)" .
  from h have r: "py_range (number_of_adds slf) = Inr [0..<nat n]" by simp
  from h have "[0..<nat n] = 0 # [Suc 0..<nat n]" by (simp add: upt_rec)
  with it have l: "for_loop (iter_body slf d targets rng) [0..<nat n] (init_locals d)
    = Inr (Break, ?fin)" by simp
  from fit_loop_done[OF r l] s2
  have v: "vars (fit slf d targets rng) = ?fin"
    and o: "outcome (fit slf d targets rng) = Inr (Frame d)"
    by simp_all
  from h cand score_less_NaN[of x] o v s2 nw
  show "score_of d targets = Inr NaN
     \<and> score_of (concat_row d r) targets = Inr NaN
     \<and> \<not> score_less x NaN \<and> \<not> score_less NaN x
     \<and> outcome (fit slf d targets rng) = Inr (Frame d)
     \<and> df_new (vars (fit slf d targets rng)) = d
     \<and> res_std (vars (fit slf d targets rng)) = []
     \<and> res_bad (vars (fit slf d targets rng)) = []
     \<and> length (not_working (vars (fit slf d targets rng))) = nat m
     \<and> (\<forall>p \<in> set (not_working (vars (fit slf d targets rng))). snd p = NaN)
     \<and> draws (vars (fit slf d targets rng)) = nat m
     \<and> printed (vars (fit slf d targets rng)) = [NoImprovement (PyInt m) 0]"
    by (simp add: score_of_short)
qed

theorem undefined_score_stalls_at_iteration_0_witness:
  "length [''y1''] < 2 \<and> set [''y1''] \<subseteq> set (columns ex_frame) \<and> rows ex_frame \<noteq> []
   \<and> number_of_adds (init (PyInt 5) (PyInt 2) True False True) = PyInt 5 \<and> (0::int) < 5
   \<and> number_of_tries (init (PyInt 5) (PyInt 2) True False True) = PyInt 2 \<and> (0::int) < 2
   \<and> score_of ex_frame [''y1''] = Inr NaN
   \<and> outcome (fit (init (PyInt 5) (PyInt 2) True False True) ex_frame [''y1''] ex_rng)
       = Inr (Frame ex_frame)
   \<and> vars (fit (init (PyInt 5) (PyInt 2) True False True) ex_frame [''y1''] ex_rng)
       = \<lparr>df_new = ex_frame, res_std = [], res_bad = [],
          not_working = [(0, NaN), (3, NaN)], try_var = Some 1, draws = 2,
          printed = [NoImprovement (PyInt 2) 0]\<rparr>"
proof -
  let ?slf = "init (PyInt 5) (PyInt 2) True False True"
  have pre: "length [''y1''] < 2 \<and> set [''y1''] \<subseteq> set (columns ex_frame) \<and> rows ex_frame \<noteq> []
   \<and> number_of_adds ?slf = PyInt 5 \<and> (0::int) < 5
   \<and> number_of_tries ?slf = PyInt 2 \<and> (0::int) < 2"
    by (simp add: ex_frame_def init_def)
  have v: "vars (fit ?slf ex_frame [''y1''] ex_rng)
       = \<lparr>df_new = ex_frame, res_std = [], res_bad = [],
          not_working = [(0, NaN), (3, NaN)], try_var = Some 1, draws = 2,
          printed = [NoImprovement (PyInt 2) 0]\<rparr>"
    by (simp add: run_eval ex_frame_def ex_rng_def)
  from undefined_score_stalls_at_iteration_0[of "[''y1'']" ex_frame ?slf 5 2 "(3, [0, 1])" NaN
      ex_rng] pre
  have "score_of ex_frame [''y1''] = Inr NaN
    \<and> outcome (fit ?slf ex_frame [''y1''] ex_rng) = Inr (Frame ex_frame)"
    by blast
  with pre v show ?thesis by simp
qed


text \<open>
  C7, as stated, fails: the list of the stalled iteration is not in the history. In the
  run below iterations 0, 1 and 2 ran and iteration 2 stalled after three rejected
  tries; \<open>res_bad\<close> has the two lists of iterations 0 and 1, and the three rejected tries
  of iteration 2 are left in the local \<open>not_working\<close>.
\<close>

theorem stalled_iteration_not_in_res_bad:
  "self_res_bad (obj (fit (init (PyInt 5) (PyInt 3) True False False) ex_frame
       [''y1'', ''y2''] ex_rng)) = Some [[(0, Val (sqrt (9 / 2)))], []]
   \<and> printed (vars (fit (init (PyInt 5) (PyInt 3) True False False) ex_frame
       [''y1'', ''y2''] ex_rng)) = [NoImprovement (PyInt 3) 2]
   \<and> not_working (vars (fit (init (PyInt 5) (PyInt 3) True False False) ex_frame
       [''y1'', ''y2''] ex_rng))
     = [(3, Val (sqrt (1 / 2))), (3, Val (sqrt (1 / 2))), (3, Val (sqrt (1 / 2)))]"
  by (simp add: run_eval ex_frame_def ex_rng_def)

text \<open>
  C7, amended. After an iteration, \<open>not_working\<close> holds exactly its rejected tries, in the
  order of the draws: as many pairs as the try budget when nothing was accepted, and
  otherwise as many as the index \<open>try_\<close> of the accepted try, which is the next draw; pair
  \<open>j\<close> is the index label of the row of draw \<open>j\<close> and its score, which was not below the
  iteration's starting score. An iteration after which the run goes on appends that list
  to \<open>res_bad\<close>; the iteration that stops the run (the line "No improvement") appends
  nothing. So a loop that runs all its \<open>n\<close> iterations leaves \<open>n\<close> lists, a loop stopped in
  iteration \<open>b\<close> leaves \<open>b\<close> lists although \<open>b + 1\<close> iterations ran, the list at position
  \<open>j\<close> is the one iteration \<open>j\<close> left in \<open>not_working\<close>, and \<open>fit\<close> stores the history as
  \<open>res_bad\<close>.
\<close>

theorem rejected_history:
  "(iter_body slf d targets rng iter u = Inr (c, u')
      \<longrightarrow> (\<exists>cur ts. score_of (df_new u) targets = Inr cur
            \<and> py_range (number_of_tries slf) = Inr ts
            \<and> (\<forall>j<length (not_working u'). \<exists>random_row new_std.
                  sample d (rng (draws u + j)) = Inr random_row
                \<and> score_of (concat_row (df_new u) random_row) targets = Inr new_std
                \<and> \<not> score_less new_std cur
                \<and> not_working u' ! j = (fst random_row, new_std))
            \<and> (if res_std u' = res_std u
               then length (not_working u') = length ts
                  \<and> draws u' = draws u + length ts \<and> df_new u' = df_new u
               else length (not_working u') < length ts
                  \<and> try_var u' = Some (length (not_working u'))
                  \<and> draws u' = Suc (draws u + length (not_working u'))
                  \<and> (\<exists>random_row new_std.
                        sample d (rng (draws u + length (not_working u'))) = Inr random_row
                      \<and> score_of (concat_row (df_new u) random_row) targets = Inr new_std
                      \<and> score_less new_std cur
                      \<and> df_new u' = concat_row (df_new u) random_row
                      \<and> res_std u' = res_std u @ [new_std])))
        \<and> (if c = Continue then res_bad u' = res_bad u @ [not_working u']
           else res_bad u' = res_bad u
              \<and> last (printed u') = NoImprovement (number_of_tries slf) iter))
   \<and> (for_loop (iter_body slf d targets rng) [0..<n] (init_locals d) = Inr (Continue, s)
      \<longrightarrow> length (res_bad s) = n)
   \<and> (for_loop (iter_body slf d targets rng) [0..<n'] (init_locals d) = Inr (Break, s')
      \<longrightarrow> (\<exists>b<n'. last (printed s') = NoImprovement (number_of_tries slf) b
            \<and> length (res_bad s') = b))
   \<and> (j < k
        \<and> for_loop (iter_body slf d targets rng) [0..<Suc j] (init_locals d) = Inr (Continue, sj)
        \<and> for_loop (iter_body slf d targets rng) [0..<k] (init_locals d) = Inr (c2, sk)
      \<longrightarrow> j < length (res_bad sk) \<and> res_bad sk ! j = not_working sj
        \<and> (\<exists>s1. for_loop (iter_body slf d targets rng) [0..<j] (init_locals d)
                  = Inr (Continue, s1)
               \<and> iter_body slf d targets rng j s1 = Inr (Continue, sj)))
   \<and> (number_of_adds slf = PyInt a
        \<and> for_loop (iter_body slf d targets rng) [0..<nat a] (init_locals d) = Inr (c3, sa)
      \<longrightarrow> self_res_bad (obj (fit slf d targets rng)) = Some (res_bad sa))"
proof -
  have 1: "iter_body slf d targets rng iter u = Inr (c, u')
      \<longrightarrow> (\<exists>cur ts. score_of (df_new u) targets = Inr cur
            \<and> py_range (number_of_tries slf) = Inr ts
            \<and> (\<forall>j<length (not_working u'). \<exists>random_row new_std.
                  sample d (rng (draws u + j)) = Inr random_row
                \<and> score_of (concat_row (df_new u) random_row) targets = Inr new_std
                \<and> \<not> score_less new_std cur
                \<and> not_working u' ! j = (fst random_row, new_std))
            \<and> (if res_std u' = res_std u
               then length (not_working u') = length ts
                  \<and> draws u' = draws u + length ts \<and> df_new u' = df_new u
               else length (not_working u') < length ts
                  \<and> try_var u' = Some (length (not_working u'))
                  \<and> draws u' = Suc (draws u + length (not_working u'))
                  \<and> (\<exists>random_row new_std.
                        sample d (rng (draws u + length (not_working u'))) = Inr random_row
                      \<and> score_of (concat_row (df_new u) random_row) targets = Inr new_std
                      \<and> score_less new_std cur
                      \<and> df_new u' = concat_row (df_new u) random_row
                      \<and> res_std u' = res_std u @ [new_std])))
        \<and> (if c = Continue then res_bad u' = res_bad u @ [not_working u']
           else res_bad u' = res_bad u
              \<and> last (printed u') = NoImprovement (number_of_tries slf) iter)"
  proof
    assume b: "iter_body slf d targets rng iter u = Inr (c, u')"
    from iter_body_res_bad[OF b] obtain cur where
      cur: "score_of (df_new u) targets = Inr cur"
      and content: "\<forall>j<length (not_working u'). \<exists>random_row new_std.
                  sample d (rng (draws u + j)) = Inr random_row
                \<and> score_of (concat_row (df_new u) random_row) targets = Inr new_std
                \<and> \<not> score_less new_std cur
                \<and> not_working u' ! j = (fst random_row, new_std)"
      and hist: "if c = Continue then res_bad u' = res_bad u @ [not_working u']
           else res_bad u' = res_bad u
              \<and> last (printed u') = NoImprovement (number_of_tries slf) iter"
      by blast
    from iter_body_not_working_count[OF b] obtain ts cur2 where
      ts: "py_range (number_of_tries slf) = Inr ts"
      and cur2: "score_of (df_new u) targets = Inr cur2"
      and count: "if res_std u' = res_std u
               then length (not_working u') = length ts
                  \<and> draws u' = draws u + length ts \<and> df_new u' = df_new u
               else length (not_working u') < length ts
                  \<and> try_var u' = Some (length (not_working u'))
                  \<and> draws u' = Suc (draws u + length (not_working u'))
                  \<and> (\<exists>random_row new_std.
                        sample d (rng (draws u + length (not_working u'))) = Inr random_row
                      \<and> score_of (concat_row (df_new u) random_row) targets = Inr new_std
                      \<and> score_less new_std cur2
                      \<and> df_new u' = concat_row (df_new u) random_row
                      \<and> res_std u' = res_std u @ [new_std])"
      by blast
    from cur cur2 have eq: "cur2 = cur" by simp
    note count' = count[unfolded eq]
    from cur ts content count' hist
    show "(\<exists>cur ts. score_of (df_new u) targets = Inr cur
            \<and> py_range (number_of_tries slf) = Inr ts
            \<and> (\<forall>j<length (not_working u'). \<exists>random_row new_std.
                  sample d (rng (draws u + j)) = Inr random_row
                \<and> score_of (concat_row (df_new u) random_row) targets = Inr new_std
                \<and> \<not> score_less new_std cur
                \<and> not_working u' ! j = (fst random_row, new_std))
            \<and> (if res_std u' = res_std u
               then length (not_working u') = length ts
                  \<and> draws u' = draws u + length ts \<and> df_new u' = df_new u
               else length (not_working u') < length ts
                  \<and> try_var u' = Some (length (not_working u'))
                  \<and> draws u' = Suc (draws u + length (not_working u'))
                  \<and> (\<exists>random_row new_std.
                        sample d (rng (draws u + length (not_working u'))) = Inr random_row
                      \<and> score_of (concat_row (df_new u) random_row) targets = Inr new_std
                      \<and> score_less new_std cur
                      \<and> df_new u' = concat_row (df_new u) random_row
                      \<and> res_std u' = res_std u @ [new_std])))
        \<and> (if c = Continue then res_bad u' = res_bad u @ [not_working u']
           else res_bad u' = res_bad u
              \<and> last (printed u') = NoImprovement (number_of_tries slf) iter)"
      by blast
  qed
  have 2: "for_loop (iter_body slf d targets rng) [0..<n] (init_locals d) = Inr (Continue, s)
      \<longrightarrow> length (res_bad s) = n"
    using iter_loop_res_bad_count[of slf d targets rng "[0..<n]" "init_locals d" s]
    by (simp add: init_locals_def)
  have 3: "for_loop (iter_body slf d targets rng) [0..<n'] (init_locals d) = Inr (Break, s')
      \<longrightarrow> (\<exists>b<n'. last (printed s') = NoImprovement (number_of_tries slf) b
            \<and> length (res_bad s') = b)"
    using iter_loop_Break_res_bad[of slf d targets rng n' "init_locals d" s']
    by (simp add: init_locals_def)
  have 4: "j < k
        \<and> for_loop (iter_body slf d targets rng) [0..<Suc j] (init_locals d) = Inr (Continue, sj)
        \<and> for_loop (iter_body slf d targets rng) [0..<k] (init_locals d) = Inr (c2, sk)
      \<longrightarrow> j < length (res_bad sk) \<and> res_bad sk ! j = not_working sj
        \<and> (\<exists>s1. for_loop (iter_body slf d targets rng) [0..<j] (init_locals d)
                  = Inr (Continue, s1)
               \<and> iter_body slf d targets rng j s1 = Inr (Continue, sj))"
  proof
    assume h: "j < k
        \<and> for_loop (iter_body slf d targets rng) [0..<Suc j] (init_locals d) = Inr (Continue, sj)
        \<and> for_loop (iter_body slf d targets rng) [0..<k] (init_locals d) = Inr (c2, sk)"
    have e: "res_bad (init_locals d) = []" by (simp add: init_locals_def)
    from h have "j < k"
      and f: "for_loop (iter_body slf d targets rng) [0..<Suc j] (init_locals d) = Inr (Continue, sj)"
      and w: "for_loop (iter_body slf d targets rng) [0..<k] (init_locals d) = Inr (c2, sk)"
      by blast+
    from iter_loop_res_bad_entry[OF this(1) e f w]
    show "j < length (res_bad sk) \<and> res_bad sk ! j = not_working sj
        \<and> (\<exists>s1. for_loop (iter_body slf d targets rng) [0..<j] (init_locals d)
                  = Inr (Continue, s1)
               \<and> iter_body slf d targets rng j s1 = Inr (Continue, sj))" .
  qed
  have 5: "number_of_adds slf = PyInt a
        \<and> for_loop (iter_body slf d targets rng) [0..<nat a] (init_locals d) = Inr (c3, sa)
      \<longrightarrow> self_res_bad (obj (fit slf d targets rng)) = Some (res_bad sa)"
  proof
    assume h: "number_of_adds slf = PyInt a
        \<and> for_loop (iter_body slf d targets rng) [0..<nat a] (init_locals d) = Inr (c3, sa)"
    then have r: "py_range (number_of_adds slf) = Inr [0..<nat a]" by simp
    from h have l: "for_loop (iter_body slf d targets rng) [0..<nat a] (init_locals d)
      = Inr (c3, sa)" by blast
    from fit_loop_done[OF r l]
    show "self_res_bad (obj (fit slf d targets rng)) = Some (res_bad sa)" by simp
  qed
  from 1 2 3 4 5 show ?thesis by (intro conjI)
qed

theorem rejected_history_witness:
  "iter_body (init (PyInt 5) (PyInt 3) True False False) ex_frame [''y1'', ''y2''] ex_rng 0
        (init_locals ex_frame)
      = Inr (Continue, (init_locals ex_frame)\<lparr>df_new := concat_row ex_frame (3, [0, 1]),
               res_std := [Val (sqrt (1 / 2))], res_bad := [[(0, Val (sqrt (9 / 2)))]],
               not_working := [(0, Val (sqrt (9 / 2)))], try_var := Some 1, draws := 2\<rparr>)
   \<and> for_loop (iter_body (init (PyInt 5) (PyInt 3) True False False) ex_frame
         [''y1'', ''y2''] ex_rng) [0..<2] (init_locals ex_frame)
       = Inr (Continue,
           \<lparr>df_new = ex_frame\<lparr>rows := rows ex_frame @ [(3, [0, 1]), (3, [0, 1])]\<rparr>,
            res_std = [Val (sqrt (1 / 2)), Val 0],
            res_bad = [[(0, Val (sqrt (9 / 2)))], []],
            not_working = [], try_var = Some 0, draws = 3, printed = []\<rparr>)
   \<and> for_loop (iter_body (init (PyInt 5) (PyInt 3) True False False) ex_frame
         [''y1'', ''y2''] ex_rng) [0..<5] (init_locals ex_frame)
       = Inr (Break,
           \<lparr>df_new = ex_frame\<lparr>rows := rows ex_frame @ [(3, [0, 1]), (3, [0, 1])]\<rparr>,
            res_std = [Val (sqrt (1 / 2)), Val 0],
            res_bad = [[(0, Val (sqrt (9 / 2)))], []],
            not_working = [(3, Val (sqrt (1 / 2))), (3, Val (sqrt (1 / 2))), (3, Val (sqrt (1 / 2)))],
            try_var = Some 2, draws = 6, printed = [NoImprovement (PyInt 3) 2]\<rparr>)
   \<and> number_of_adds (init (PyInt 5) (PyInt 3) True False False) = PyInt 5
   \<and> self_res_bad (obj (fit (init (PyInt 5) (PyInt 3) True False False) ex_frame
        [''y1'', ''y2''] ex_rng)) = Some [[(0, Val (sqrt (9 / 2)))], []]"
proof -
  let ?slf = "init (PyInt 5) (PyInt 3) True False False"
  let ?f = "ex_frame\<lparr>rows := rows ex_frame @ [(3, [0, 1]), (3, [0, 1])]\<rparr>"
  let ?u1 = "(init_locals ex_frame)\<lparr>df_new := concat_row ex_frame (3, [0, 1]),
               res_std := [Val (sqrt (1 / 2))], res_bad := [[(0, Val (sqrt (9 / 2)))]],
               not_working := [(0, Val (sqrt (9 / 2)))], try_var := Some 1, draws := 2\<rparr>"
  let ?s = "\<lparr>df_new = ?f, res_std = [Val (sqrt (1 / 2)), Val 0],
            res_bad = [[(0, Val (sqrt (9 / 2)))], []],
            not_working = [], try_var = Some 0, draws = 3, printed = []\<rparr>"
  let ?s' = "\<lparr>df_new = ?f, res_std = [Val (sqrt (1 / 2)), Val 0],
            res_bad = [[(0, Val (sqrt (9 / 2)))], []],
            not_working = [(3, Val (sqrt (1 / 2))), (3, Val (sqrt (1 / 2))), (3, Val (sqrt (1 / 2)))],
            try_var = Some 2, draws = 6, printed = [NoImprovement (PyInt 3) 2]\<rparr>"
  have i: "iter_body ?slf ex_frame [''y1'', ''y2''] ex_rng 0 (init_locals ex_frame)
    = Inr (Continue, ?u1)"
    by (simp add: run_eval ex_frame_def ex_rng_def)
  have l1: "for_loop (iter_body ?slf ex_frame [''y1'', ''y2''] ex_rng) [0..<Suc 0]
    (init_locals ex_frame) = Inr (Continue, ?u1)"
    by (simp add: run_eval ex_frame_def ex_rng_def)
  have l2: "for_loop (iter_body ?slf ex_frame [''y1'', ''y2''] ex_rng) [0..<2]
    (init_locals ex_frame) = Inr (Continue, ?s)"
    by (simp add: run_eval ex_frame_def ex_rng_def)
  have l5: "for_loop (iter_body ?slf ex_frame [''y1'', ''y2''] ex_rng) [0..<5]
    (init_locals ex_frame) = Inr (Break, ?s')"
    by (simp add: run_eval ex_frame_def ex_rng_def)
  have n: "number_of_adds ?slf = PyInt 5" by (simp add: init_def)
  from rejected_history[of ?slf ex_frame "[''y1'', ''y2'']" ex_rng 0 "init_locals ex_frame"
      Continue ?u1 2 ?s 5 ?s' 0 5 ?u1 Break ?s' 5 Break ?s'] i l1 l2 l5 n
  have "self_res_bad (obj (fit ?slf ex_frame [''y1'', ''y2''] ex_rng))
    = Some [[(0, Val (sqrt (9 / 2)))], []]"
    by simp
  with i l2 l5 n show ?thesis by simp
qed


text \<open>
  C10. The call leaves every object of the caller's store as it was, the frame passed in
  among them. The frame \<open>fit\<close> returns is another object, made during the call: it has
  the columns of the caller's frame, starts with the caller's rows in their order, and
  every row after them is a row of the caller's frame, index label included. The store
  run computes what the value model \<open>fit\<close> computes.
\<close>

theorem fit_leaves_input_frame:
  "a < length h
   \<longrightarrow> take (length h) (store (h_vars (st_fit slf h a targets rng))) = h
     \<and> store (h_vars (st_fit slf h a targets rng)) ! a = h ! a
     \<and> vars (fit slf (h ! a) targets rng) = deref (h_vars (st_fit slf h a targets rng))
     \<and> (h_outcome (st_fit slf h a targets rng) = Inr (RefFrame r)
          \<or> h_outcome (st_fit slf h a targets rng) = Inr (RefFrameAndPlot r)
        \<longrightarrow> r \<noteq> a \<and> length h \<le> r
          \<and> r < length (store (h_vars (st_fit slf h a targets rng)))
          \<and> columns (store (h_vars (st_fit slf h a targets rng)) ! r) = columns (h ! a)
          \<and> take (length (rows (h ! a))) (rows (store (h_vars (st_fit slf h a targets rng)) ! r))
              = rows (h ! a)
          \<and> set (drop (length (rows (h ! a)))
                 (rows (store (h_vars (st_fit slf h a targets rng)) ! r)))
              \<subseteq> set (rows (h ! a)))"
proof
  assume a: "a < length h"
  let ?R = "st_fit slf h a targets rng"
  from st_fit_sim[OF a, of slf targets rng]
  have v: "vars (fit slf (h ! a) targets rng) = deref (h_vars ?R)"
    and inv: "store_inv h (h_vars ?R)"
    and ret: "\<forall>r. h_outcome ?R = Inr (RefFrame r) \<or> h_outcome ?R = Inr (RefFrameAndPlot r)
          \<longrightarrow> r = ref_df_new (h_vars ?R)"
    by blast+
  from inv have tk: "take (length h) (store (h_vars ?R)) = h" by (simp add: store_inv_def)
  have same: "store (h_vars ?R) ! a = h ! a" by (rule store_inv_nth[OF inv a])
  have returned: "h_outcome ?R = Inr (RefFrame r) \<or> h_outcome ?R = Inr (RefFrameAndPlot r)
        \<longrightarrow> r \<noteq> a \<and> length h \<le> r \<and> r < length (store (h_vars ?R))
          \<and> columns (store (h_vars ?R) ! r) = columns (h ! a)
          \<and> take (length (rows (h ! a))) (rows (store (h_vars ?R) ! r)) = rows (h ! a)
          \<and> set (drop (length (rows (h ! a))) (rows (store (h_vars ?R) ! r)))
              \<subseteq> set (rows (h ! a))"
  proof
    assume "h_outcome ?R = Inr (RefFrame r) \<or> h_outcome ?R = Inr (RefFrameAndPlot r)"
    with ret have r: "r = ref_df_new (h_vars ?R)" by blast
    with inv have pos: "length h \<le> r \<and> r < length (store (h_vars ?R))"
      by (simp add: store_inv_def)
    with a have ne: "r \<noteq> a" by simp
    have "df_new (deref (h_vars ?R)) = store (h_vars ?R) ! r" using r by (simp add: deref_def)
    with v rows_inv_fit[of "h ! a" slf targets rng]
    have "columns (store (h_vars ?R) ! r) = columns (h ! a)
      \<and> take (length (rows (h ! a))) (rows (store (h_vars ?R) ! r)) = rows (h ! a)
      \<and> set (drop (length (rows (h ! a))) (rows (store (h_vars ?R) ! r))) \<subseteq> set (rows (h ! a))"
      by (simp add: rows_inv_def)
    with pos ne
    show "r \<noteq> a \<and> length h \<le> r \<and> r < length (store (h_vars ?R))
          \<and> columns (store (h_vars ?R) ! r) = columns (h ! a)
          \<and> take (length (rows (h ! a))) (rows (store (h_vars ?R) ! r)) = rows (h ! a)
          \<and> set (drop (length (rows (h ! a))) (rows (store (h_vars ?R) ! r)))
              \<subseteq> set (rows (h ! a))"
      by blast
  qed
  from tk same v returned
  show "take (length h) (store (h_vars ?R)) = h
     \<and> store (h_vars ?R) ! a = h ! a
     \<and> vars (fit slf (h ! a) targets rng) = deref (h_vars ?R)
     \<and> (h_outcome ?R = Inr (RefFrame r) \<or> h_outcome ?R = Inr (RefFrameAndPlot r)
        \<longrightarrow> r \<noteq> a \<and> length h \<le> r \<and> r < length (store (h_vars ?R))
          \<and> columns (store (h_vars ?R) ! r) = columns (h ! a)
          \<and> take (length (rows (h ! a))) (rows (store (h_vars ?R) ! r)) = rows (h ! a)
          \<and> set (drop (length (rows (h ! a))) (rows (store (h_vars ?R) ! r)))
              \<subseteq> set (rows (h ! a)))"
    by blast
qed

theorem fit_leaves_input_frame_witness:
  "0 < length [ex_frame]
   \<and> h_outcome (st_fit (init (PyInt 5) (PyInt 3) True False False) [ex_frame] 0
        [''y1'', ''y2''] ex_rng) = Inr (RefFrame 8)
   \<and> store (h_vars (st_fit (init (PyInt 5) (PyInt 3) True False False) [ex_frame] 0
        [''y1'', ''y2''] ex_rng)) ! 0 = ex_frame
   \<and> store (h_vars (st_fit (init (PyInt 5) (PyInt 3) True False False) [ex_frame] 0
        [''y1'', ''y2''] ex_rng)) ! 8
       = ex_frame\<lparr>rows := rows ex_frame @ [(3, [0, 1]), (3, [0, 1])]\<rparr>
   \<and> (8::nat) \<noteq> 0"
proof -
  let ?slf = "init (PyInt 5) (PyInt 3) True False False"
  have o: "h_outcome (st_fit ?slf [ex_frame] 0 [''y1'', ''y2''] ex_rng) = Inr (RefFrame 8)
    \<and> store (h_vars (st_fit ?slf [ex_frame] 0 [''y1'', ''y2''] ex_rng)) ! 8
       = ex_frame\<lparr>rows := rows ex_frame @ [(3, [0, 1]), (3, [0, 1])]\<rparr>"
    by (simp add: st_fit_def st_iter_body_def st_try_body_def deepcopy_def alloc_def
        sample_obj_def concat_obj_def run_eval ex_frame_def ex_rng_def nth_append)
  from fit_leaves_input_frame[of 0 "[ex_frame]" ?slf "[''y1'', ''y2'']" ex_rng 8] o
  show ?thesis by simp
qed

end
